theory Spec2Isabelle
  imports Main
begin

section \<open>Caller-supplied functions, events and the observable environment\<close>

text \<open>
  The library is driven by functions that its callers hand in: event listeners,
  \<open>onChange\<close> callbacks, subscribers. A function object is identified by a number
  (\<open>fid\<close>); two registrations of the same function carry the same number, as they are
  the same object for JavaScript's \<open>Set\<close>.

  Such a function is opaque. What the library can observe of one invocation is whether
  it returns or throws; what the outside can observe is that it was invoked, and with
  which argument. Every invocation is therefore appended to the trace \<open>calls\<close>, and a
  parameter \<open>raises\<close> (a predicate on the trace up to and including the invocation)
  says whether that invocation throws. A caller-supplied function does not call back into
  the object it is registered on.
\<close>

type_synonym fid = nat

text \<open>
  \<open>detail\<close> of a \<open>CustomEvent\<close>: either the payload given to \<open>emit\<close>, or the
  object \<open>{ value: newValue, oldValue }\<close> built by the state manager.
\<close>

datatype 'a detail = Payload 'a | Change 'a 'a

record 'a event =
  type :: string
  detail :: "'a detail"
  defaultPrevented :: bool

text \<open>\<open>new CustomEvent(type, { detail })\<close>: not cancelable, hence never default-prevented.\<close>

definition CustomEvent :: "string \<Rightarrow> 'a detail \<Rightarrow> 'a event" where
  "CustomEvent t d = \<lparr>type = t, detail = d, defaultPrevented = False\<rparr>"

text \<open>\<open>event.detail.value\<close>; a payload given to \<open>emit\<close> is taken to have no such field.\<close>

fun detail_value :: "'a detail \<Rightarrow> 'a option" where
  "detail_value (Change v old) = Some v"
| "detail_value (Payload p) = None"

text \<open>
  One entry of the trace for each place where the library invokes a function it was given:
  \<open>listener.call(this, event)\<close> and \<open>listener(event)\<close>, \<open>listener(event.detail.value)\<close>,
  \<open>this.options.onChange?.(newValue)\<close>.
\<close>

datatype 'a call =
    ListenerCall fid "'a event"
  | SubscriberCall fid "'a option"
  | OnChangeCall fid 'a

datatype exn =
    Thrown fid
  | TypeError string
  | Error string

datatype 'a log =
    ConsoleError string exn
  | ConsoleWarn string

text \<open>
  \<open>allocated\<close> counts the closures the library has created so far; it gives each new
  closure (\<open>wrappedListener\<close>) an identity of its own.
\<close>

record 'a env =
  calls :: "'a call list"
  console :: "'a log list"
  allocated :: nat

datatype ('r, 's) outcome = Returned 'r 's | Threw exn 's

type_synonym 'a raises = "'a call list \<Rightarrow> bool"

definition call_fn :: "'a raises \<Rightarrow> fid \<Rightarrow> 'a call \<Rightarrow> 's \<times> 'a env \<Rightarrow> (unit, 's \<times> 'a env) outcome" where
  "call_fn raises f c s =
     (let e = (snd s)\<lparr>calls := calls (snd s) @ [c]\<rparr>
      in if raises (calls e) then Threw (Thrown f) (fst s, e) else Returned () (fst s, e))"

section \<open>Event Hub: \<open>core/EventTarget.ts\<close>\<close>

text \<open>
  A listener stored in the hub is a function of the caller (\<open>Fn\<close>), or one of the two
  closures the library itself creates: \<open>wrappedListener\<close> of \<open>once(type, listener)\<close> and
  \<open>wrappedListener\<close> of \<open>subscribe(listener)\<close>. Neither closure is handed out, so a
  wrapper never wraps a wrapper.
\<close>

datatype callable =
    Fn fid
  | OnceWrapped nat string fid
  | SubscribeWrapped nat fid

text \<open>
  \<open>Set<EventListener>\<close>: the elements in insertion order, each once.
\<close>

definition set_add :: "'x \<Rightarrow> 'x list \<Rightarrow> 'x list" where
  "set_add x xs = (if x \<in> set xs then xs else xs @ [x])"

definition set_delete :: "'x \<Rightarrow> 'x list \<Rightarrow> 'x list" where
  "set_delete x xs = removeAll x xs"

record EventTarget =
  listeners :: "string \<rightharpoonup> callable list"

definition addEventListener :: "string \<Rightarrow> callable \<Rightarrow> 'z EventTarget_scheme \<Rightarrow> 'z EventTarget_scheme" where
  "addEventListener t l h =
     (let m = (if listeners h t = None then (listeners h)(t \<mapsto> []) else listeners h)
      in h\<lparr>listeners := m(t \<mapsto> set_add l (case m t of Some s \<Rightarrow> s | None \<Rightarrow> []))\<rparr>)"

definition removeEventListener :: "string \<Rightarrow> callable \<Rightarrow> 'z EventTarget_scheme \<Rightarrow> 'z EventTarget_scheme" where
  "removeEventListener t l h =
     (case listeners h t of
        None \<Rightarrow> h
      | Some s \<Rightarrow> h\<lparr>listeners := (listeners h)(t \<mapsto> set_delete l s)\<rparr>)"

text \<open>
  Calling a stored listener with an event. The closure of \<open>once\<close> calls the function
  first and removes itself afterwards, so a throw of the function skips the removal.
\<close>

fun invoke :: "'a raises \<Rightarrow> callable \<Rightarrow> 'a event \<Rightarrow> 'z EventTarget_scheme \<times> 'a env
    \<Rightarrow> (unit, 'z EventTarget_scheme \<times> 'a env) outcome" where
  "invoke raises (Fn f) ev s = call_fn raises f (ListenerCall f ev) s"
| "invoke raises (OnceWrapped k t f) ev s =
     (case call_fn raises f (ListenerCall f ev) s of
        Returned u (h, e) \<Rightarrow> Returned () (removeEventListener t (OnceWrapped k t f) h, e)
      | Threw x s' \<Rightarrow> Threw x s')"
| "invoke raises (SubscribeWrapped k f) ev s =
     call_fn raises f (SubscriberCall f (detail_value (detail ev))) s"

text \<open>
  \<open>listeners.forEach(listener => { try { listener.call(this, event) } catch (error) {
  console.error(...) } })\<close>. The only change a listener makes to the set under iteration
  is the self-removal of a \<open>once\<close> closure, which leaves the elements still to be visited
  in place; the loop therefore runs over the elements present when it starts.
\<close>

definition log_listener_error :: "'a event \<Rightarrow> exn \<Rightarrow> 's \<times> 'a env \<Rightarrow> 's \<times> 'a env" where
  "log_listener_error ev x s =
     (fst s, (snd s)\<lparr>console := console (snd s) @ [ConsoleError (''Error in event listener for '' @ type ev @ '':'') x]\<rparr>)"

fun forEach_listener :: "'a raises \<Rightarrow> 'a event \<Rightarrow> callable list \<Rightarrow> 'z EventTarget_scheme \<times> 'a env
    \<Rightarrow> 'z EventTarget_scheme \<times> 'a env" where
  "forEach_listener raises ev [] s = s"
| "forEach_listener raises ev (l # ls) s =
     forEach_listener raises ev ls
       (case invoke raises l ev s of
          Returned u s' \<Rightarrow> s'
        | Threw x s' \<Rightarrow> log_listener_error ev x s')"

definition dispatchEvent :: "'a raises \<Rightarrow> 'a event \<Rightarrow> 'z EventTarget_scheme \<times> 'a env
    \<Rightarrow> (bool, 'z EventTarget_scheme \<times> 'a env) outcome" where
  "dispatchEvent raises ev s =
     (case listeners (fst s) (type ev) of
        Some ls \<Rightarrow> Returned (\<not> defaultPrevented ev) (forEach_listener raises ev ls s)
      | None \<Rightarrow> Returned (\<not> defaultPrevented ev) s)"

definition emit :: "'a raises \<Rightarrow> string \<Rightarrow> 'a \<Rightarrow> 'z EventTarget_scheme \<times> 'a env
    \<Rightarrow> (unit, 'z EventTarget_scheme \<times> 'a env) outcome" where
  "emit raises t d s =
     (case dispatchEvent raises (CustomEvent t (Payload d)) s of
        Returned b s' \<Rightarrow> Returned () s'
      | Threw x s' \<Rightarrow> Threw x s')"

definition once :: "string \<Rightarrow> fid \<Rightarrow> 'z EventTarget_scheme \<times> 'a env \<Rightarrow> 'z EventTarget_scheme \<times> 'a env" where
  "once t f s =
     (let wrappedListener = OnceWrapped (allocated (snd s)) t f
      in (addEventListener t wrappedListener (fst s), (snd s)\<lparr>allocated := Suc (allocated (snd s))\<rparr>))"

text \<open>\<open>removeAllListeners(type?)\<close> tests \<open>if (type)\<close>: the empty string is falsy, like no argument.\<close>

definition removeAllListeners :: "string option \<Rightarrow> 'z EventTarget_scheme \<Rightarrow> 'z EventTarget_scheme" where
  "removeAllListeners t h =
     (case t of
        Some ty \<Rightarrow>
          (if ty \<noteq> [] then h\<lparr>listeners := (listeners h)(ty := None)\<rparr>
           else h\<lparr>listeners := Map.empty\<rparr>)
      | None \<Rightarrow> h\<lparr>listeners := Map.empty\<rparr>)"

definition listenerCount :: "string \<Rightarrow> 'z EventTarget_scheme \<Rightarrow> nat" where
  "listenerCount t h = (case listeners h t of Some s \<Rightarrow> length s | None \<Rightarrow> 0)"

subsection \<open>What a caller can observe of the hub\<close>

text \<open>The entry that the invocation of a stored listener leaves in the trace.\<close>

fun call_of :: "'a event \<Rightarrow> callable \<Rightarrow> 'a call" where
  "call_of ev (Fn f) = ListenerCall f ev"
| "call_of ev (OnceWrapped k t f) = ListenerCall f ev"
| "call_of ev (SubscribeWrapped k f) = SubscriberCall f (detail_value (detail ev))"

fun callee :: "'a call \<Rightarrow> fid" where
  "callee (ListenerCall f ev) = f"
| "callee (SubscriberCall f v) = f"
| "callee (OnChangeCall f v) = f"

fun fn_of :: "callable \<Rightarrow> fid" where
  "fn_of (Fn f) = f"
| "fn_of (OnceWrapped k t f) = f"
| "fn_of (SubscribeWrapped k f) = f"

text \<open>The invocations of one function, in order.\<close>

definition invocations :: "fid \<Rightarrow> 'a call list \<Rightarrow> 'a call list" where
  "invocations f tr = filter (\<lambda>c. callee c = f) tr"

text \<open>\<open>this.listeners.get(type)\<close> read as a list; no entry reads as no listener.\<close>

definition registered :: "string \<Rightarrow> 'z EventTarget_scheme \<Rightarrow> callable list" where
  "registered t h = (case listeners h t of Some s \<Rightarrow> s | None \<Rightarrow> [])"


text \<open>The state an operation leaves behind, whether it returned or threw.\<close>

fun after :: "('r, 's) outcome \<Rightarrow> 's" where
  "after (Returned r s) = s"
| "after (Threw x s) = s"

fun returned :: "('r, 's) outcome \<Rightarrow> bool" where
  "returned (Returned r s) = True"
| "returned (Threw x s) = False"

definition listener_error :: "'a event \<Rightarrow> callable \<Rightarrow> 'a log" where
  "listener_error ev l =
     ConsoleError (''Error in event listener for '' @ type ev @ '':'') (Thrown (fn_of l))"

definition new_EventTarget :: EventTarget where
  "new_EventTarget = \<lparr>listeners = Map.empty\<rparr>"

definition env0 :: "'a env" where
  "env0 = \<lparr>calls = [], console = [], allocated = 0\<rparr>"

section \<open>Observable Value Cell: \<open>core/StateManager.ts\<close>\<close>

text \<open>
  An optional field of \<open>StateOptions\<close> is \<open>None\<close> when it is absent or \<open>undefined\<close>
  (the source tests \<open>!== undefined\<close>). Values are compared with HOL's equality, which
  is JavaScript's \<open>===\<close> on booleans, strings and on numbers other than \<open>NaN\<close>.
  The field \<open>prop\<close> of the source is \<open>prop_value\<close> here.
\<close>

record 'a StateOptions =
  prop_value :: "'a option"
  defaultProp :: "'a option"
  onChange :: "fid option"
  caller :: "string option"

text \<open>\<open>class StateManager<T> extends EventTarget\<close>; \<open>cell_value\<close> is the field \<open>_value\<close>.\<close>

record 'a StateManager = EventTarget +
  cell_value :: 'a
  options :: "'a StateOptions"
  isControlled :: bool

definition no_options :: "'a StateOptions" where
  "no_options = \<lparr>prop_value = None, defaultProp = None, onChange = None, caller = None\<rparr>"

definition new_StateManager :: "'a \<Rightarrow> 'a StateOptions \<Rightarrow> 'a StateManager" where
  "new_StateManager initialValue opts =
     \<lparr>listeners = Map.empty,
      cell_value =
        (case prop_value opts of
           Some p \<Rightarrow> p
         | None \<Rightarrow> (case defaultProp opts of Some d \<Rightarrow> d | None \<Rightarrow> initialValue)),
      options = opts,
      isControlled = (prop_value opts \<noteq> None)\<rparr>"

definition getValue :: "('a, 'z) StateManager_scheme \<Rightarrow> 'a" where
  "getValue c = cell_value c"

definition isControlledState :: "('a, 'z) StateManager_scheme \<Rightarrow> bool" where
  "isControlledState c = isControlled c"

text \<open>\<open>this.options.caller || 'StateManager'\<close>: an empty string is falsy too.\<close>

definition caller_or :: "string \<Rightarrow> string option \<Rightarrow> string" where
  "caller_or dflt c = (case c of None \<Rightarrow> dflt | Some s \<Rightarrow> if s = [] then dflt else s)"

definition controlled_warning :: "'a StateOptions \<Rightarrow> 'a log" where
  "controlled_warning opts =
     ConsoleWarn (''['' @ caller_or ''StateManager'' (caller opts) @
       ''] Cannot set value on controlled state. Use the onChange callback instead.'')"

definition setValue :: "'a raises \<Rightarrow> 'a \<Rightarrow> ('a, 'z) StateManager_scheme \<times> 'a env
    \<Rightarrow> (unit, ('a, 'z) StateManager_scheme \<times> 'a env) outcome" where
  "setValue raises newValue s =
     (if cell_value (fst s) = newValue then Returned () s
      else
        let oldValue = cell_value (fst s);
            s1 = ((fst s)\<lparr>cell_value := newValue\<rparr>, snd s)
        in case (case onChange (options (fst s)) of
                   Some f \<Rightarrow> call_fn raises f (OnChangeCall f newValue) s1
                 | None \<Rightarrow> Returned () s1) of
             Threw x s2 \<Rightarrow> Threw x s2
           | Returned u s2 \<Rightarrow>
               (case dispatchEvent raises (CustomEvent ''change'' (Change newValue oldValue)) s2 of
                  Returned b s3 \<Rightarrow> Returned () s3
                | Threw x s3 \<Rightarrow> Threw x s3))"

text \<open>The setter \<open>set value(newValue)\<close>.\<close>

definition set_value :: "'a raises \<Rightarrow> 'a \<Rightarrow> ('a, 'z) StateManager_scheme \<times> 'a env
    \<Rightarrow> (unit, ('a, 'z) StateManager_scheme \<times> 'a env) outcome" where
  "set_value raises newValue s =
     (if isControlled (fst s)
      then Returned () (fst s, (snd s)\<lparr>console := console (snd s) @ [controlled_warning (options (fst s))]\<rparr>)
      else setValue raises newValue s)"

definition updateControlledValue :: "'a raises \<Rightarrow> 'a \<Rightarrow> ('a, 'z) StateManager_scheme \<times> 'a env
    \<Rightarrow> (unit, ('a, 'z) StateManager_scheme \<times> 'a env) outcome" where
  "updateControlledValue raises newValue s =
     (if \<not> isControlled (fst s) then Returned () s
      else
        let oldValue = cell_value (fst s);
            s1 = ((fst s)\<lparr>cell_value := newValue\<rparr>, snd s)
        in case dispatchEvent raises (CustomEvent ''change'' (Change newValue oldValue)) s1 of
             Returned b s2 \<Rightarrow> Returned () s2
           | Threw x s2 \<Rightarrow> Threw x s2)"

text \<open>
  \<open>subscribe\<close> returns the closure that unsubscribes; the model returns the wrapper it has
  registered, and \<open>unsubscribe\<close> is the body of the returned closure.
\<close>

definition subscribe :: "fid \<Rightarrow> ('a, 'z) StateManager_scheme \<times> 'a env
    \<Rightarrow> callable \<times> ('a, 'z) StateManager_scheme \<times> 'a env" where
  "subscribe f s =
     (let wrappedListener = SubscribeWrapped (allocated (snd s)) f
      in (wrappedListener,
          addEventListener ''change'' wrappedListener (fst s),
          (snd s)\<lparr>allocated := Suc (allocated (snd s))\<rparr>))"

definition unsubscribe :: "callable \<Rightarrow> ('a, 'z) StateManager_scheme \<Rightarrow> ('a, 'z) StateManager_scheme" where
  "unsubscribe wrappedListener c = removeEventListener ''change'' wrappedListener c"

definition createState :: "'a \<Rightarrow> 'a StateOptions \<Rightarrow> 'a StateManager" where
  "createState initialValue opts = new_StateManager initialValue opts"

definition createControllableState :: "'a StateOptions \<Rightarrow> exn + 'a StateManager" where
  "createControllableState opts =
     (case prop_value opts of
        Some p \<Rightarrow> Inr (new_StateManager p opts)
      | None \<Rightarrow>
          (case defaultProp opts of
             Some d \<Rightarrow> Inr (new_StateManager d opts)
           | None \<Rightarrow>
               Inl (Error (''['' @ caller_or ''createControllableState'' (caller opts) @
                      ''] Either 'prop' or 'defaultProp' must be provided''))))"

text \<open>The calls of \<open>onChange\<close> callbacks in a trace.\<close>

definition onChange_calls :: "'a call list \<Rightarrow> 'a call list" where
  "onChange_calls tr = filter (\<lambda>c. case c of OnChangeCall f v \<Rightarrow> True | _ \<Rightarrow> False) tr"

section \<open>Widget Lifecycle Base: \<open>core/Component.ts\<close>\<close>

subsection \<open>The platform's event targets\<close>

text \<open>
  \<open>Component.ts\<close> imports nothing: its \<open>EventTarget\<close> is the platform's. Of the
  platform, the model keeps the table of listeners of every target (elements, and the
  target a component creates for itself), the answers of \<open>querySelector\<close> and \<open>closest\<close>,
  and a counter for new nodes. \<open>addEventListener\<close> of the platform ignores a listener
  that is already registered for the type; dispatching calls the listeners registered on
  the target for the type of the event, in order, and reports what a listener throws
  instead of propagating it. Attributes, classes and the shape of the tree are not modelled.
\<close>

type_synonym node = nat

record dom =
  handlers :: "node \<Rightarrow> string \<Rightarrow> callable list"
  query :: "node \<Rightarrow> string \<Rightarrow> node option"
  closest :: "node \<Rightarrow> string \<Rightarrow> node option"
  nodes :: nat

definition native_addEventListener :: "node \<Rightarrow> string \<Rightarrow> callable \<Rightarrow> dom \<Rightarrow> dom" where
  "native_addEventListener n t l d =
     d\<lparr>handlers := (handlers d)(n := (handlers d n)(t := set_add l (handlers d n t)))\<rparr>"

definition native_removeEventListener :: "node \<Rightarrow> string \<Rightarrow> callable \<Rightarrow> dom \<Rightarrow> dom" where
  "native_removeEventListener n t l d =
     d\<lparr>handlers := (handlers d)(n := (handlers d n)(t := set_delete l (handlers d n t)))\<rparr>"

definition report_uncaught :: "exn \<Rightarrow> 's \<times> 'a env \<Rightarrow> 's \<times> 'a env" where
  "report_uncaught x s = (fst s, (snd s)\<lparr>console := console (snd s) @ [ConsoleError ''Uncaught'' x]\<rparr>)"

fun native_forEach :: "'a raises \<Rightarrow> 'a event \<Rightarrow> callable list \<Rightarrow> 's \<times> 'a env \<Rightarrow> 's \<times> 'a env" where
  "native_forEach raises ev [] s = s"
| "native_forEach raises ev (l # ls) s =
     native_forEach raises ev ls
       (case call_fn raises (fn_of l) (call_of ev l) s of
          Returned u s' \<Rightarrow> s'
        | Threw x s' \<Rightarrow> report_uncaught x s')"

definition native_dispatchEvent :: "'a raises \<Rightarrow> 'a event \<Rightarrow> node \<Rightarrow> ('c \<times> dom) \<times> 'a env
    \<Rightarrow> ('c \<times> dom) \<times> 'a env" where
  "native_dispatchEvent raises ev n s = native_forEach raises ev (handlers (snd (fst s)) n (type ev)) s"

text \<open>\<open>new EventTarget()\<close> and \<open>document.createElement(...)\<close>: the next node.\<close>

definition new_native_EventTarget :: "dom \<Rightarrow> node \<times> dom" where
  "new_native_EventTarget d = (nodes d, d\<lparr>nodes := Suc (nodes d)\<rparr>)"

definition createElement :: "dom \<Rightarrow> node \<times> dom" where
  "createElement d = (nodes d, d\<lparr>nodes := Suc (nodes d)\<rparr>)"

text \<open>A document of three nodes, 0 to 2, none with a listener.\<close>

definition dom0 :: dom where
  "dom0 = \<lparr>handlers = (\<lambda>n t. []), query = (\<lambda>n sel. None), closest = (\<lambda>n sel. None), nodes = 3\<rparr>"

subsection \<open>The base class\<close>

text \<open>
  \<open>Map<string, Set<EventListener>>\<close> of the component is a list of pairs in insertion
  order of the keys, since \<open>destroy\<close> iterates over it. The fields \<open>options\<close> and
  \<open>listeners\<close> of the source are \<open>component_options\<close> and \<open>component_listeners\<close> here.
\<close>

definition map_set :: "'k \<Rightarrow> 'v \<Rightarrow> ('k \<times> 'v) list \<Rightarrow> ('k \<times> 'v) list" where
  "map_set k v m =
     (if map_of m k = None then m @ [(k, v)]
      else map (\<lambda>kv. if fst kv = k then (k, v) else kv) m)"

record 'o Component =
  element :: node
  component_options :: 'o
  eventTarget :: node
  component_listeners :: "(string \<times> callable list) list"
  destroyed :: bool

text \<open>The protected, tracked \<open>addEventListener(element, event, listener)\<close>.\<close>

definition Component_addEventListener :: "node \<Rightarrow> string \<Rightarrow> callable
    \<Rightarrow> (('o, 'z) Component_scheme \<times> dom) \<times> 'a env \<Rightarrow> (('o, 'z) Component_scheme \<times> dom) \<times> 'a env" where
  "Component_addEventListener el event listener s =
     (let c = fst (fst s);
          m = (if map_of (component_listeners c) event = None
               then map_set event [] (component_listeners c) else component_listeners c);
          m' = (case map_of m event of Some ls \<Rightarrow> map_set event (set_add listener ls) m | None \<Rightarrow> m)
      in ((c\<lparr>component_listeners := m'\<rparr>, native_addEventListener el event listener (snd (fst s))), snd s))"

definition Component_removeEventListener :: "node \<Rightarrow> string \<Rightarrow> callable
    \<Rightarrow> (('o, 'z) Component_scheme \<times> dom) \<times> 'a env \<Rightarrow> (('o, 'z) Component_scheme \<times> dom) \<times> 'a env" where
  "Component_removeEventListener el event listener s =
     (let c = fst (fst s);
          d = native_removeEventListener el event listener (snd (fst s));
          m' = (case map_of (component_listeners c) event of
                  Some ls \<Rightarrow> map_set event (set_delete listener ls) (component_listeners c)
                | None \<Rightarrow> component_listeners c)
      in ((c\<lparr>component_listeners := m'\<rparr>, d), snd s))"

definition Component_dispatchEvent :: "'a raises \<Rightarrow> 'a event
    \<Rightarrow> (('o, 'z) Component_scheme \<times> dom) \<times> 'a env \<Rightarrow> (('o, 'z) Component_scheme \<times> dom) \<times> 'a env" where
  "Component_dispatchEvent raises ev s = native_dispatchEvent raises ev (eventTarget (fst (fst s))) s"

definition addCustomEventListener :: "string \<Rightarrow> callable
    \<Rightarrow> (('o, 'z) Component_scheme \<times> dom) \<times> 'a env \<Rightarrow> (('o, 'z) Component_scheme \<times> dom) \<times> 'a env" where
  "addCustomEventListener event listener s =
     Component_addEventListener (eventTarget (fst (fst s))) event listener s"

text \<open>
  The constructor. \<open>init\<close> is the hook of the concrete widget and runs inside the
  constructor of the base, before the constructor of the subclass has assigned any field:
  \<open>blank\<close> is the part of the object that belongs to the subclass, every field of it still
  \<open>undefined\<close>. When the constructor throws there is no object.
\<close>

definition new_Component :: "bool
    \<Rightarrow> ((('o, 'z) Component_scheme \<times> dom) \<times> 'a env \<Rightarrow> (unit, (('o, 'z) Component_scheme \<times> dom) \<times> 'a env) outcome)
    \<Rightarrow> node \<Rightarrow> 'o \<Rightarrow> 'z \<Rightarrow> dom \<times> 'a env \<Rightarrow> (('o, 'z) Component_scheme, dom \<times> 'a env) outcome" where
  "new_Component canUseDOM init el opts blank s =
     (if \<not> canUseDOM then Threw (Error ''Component can only be instantiated in a DOM environment'') s
      else
        let (target, d) = new_native_EventTarget (fst s);
            this = \<lparr>element = el, component_options = opts, eventTarget = target,
                    component_listeners = [], destroyed = False, \<dots> = blank\<rparr>
        in case init ((this, d), snd s) of
             Returned u s' \<Rightarrow> Returned (fst (fst s')) (snd (fst s'), snd s')
           | Threw x s' \<Rightarrow> Threw x (snd (fst s'), snd s'))"

text \<open>
  \<open>destroy\<close>. Its loop over the registry (\<open>untrack_all\<close>) calls \<open>removeEventListener\<close>
  of the component's own event target, whatever target the listener was registered on.
  \<open>cleanup\<close> is the optional hook of the concrete widget.
\<close>

definition untrack_all :: "node \<Rightarrow> (string \<times> callable list) list \<Rightarrow> dom \<Rightarrow> dom" where
  "untrack_all target entries d =
     fold (\<lambda>entry d'. fold (\<lambda>listener d''. native_removeEventListener target (fst entry) listener d'')
                             (snd entry) d')
          entries d"

definition destroy :: "(('o, 'z) Component_scheme \<Rightarrow> ('o, 'z) Component_scheme) option
    \<Rightarrow> (('o, 'z) Component_scheme \<times> dom) \<times> 'a env \<Rightarrow> (('o, 'z) Component_scheme \<times> dom) \<times> 'a env" where
  "destroy cleanup s =
     (let c = fst (fst s) in
      if destroyed c then s
      else
        let c1 = c\<lparr>destroyed := True\<rparr>;
            d1 = untrack_all (eventTarget c1) (component_listeners c1) (snd (fst s));
            c2 = c1\<lparr>component_listeners := []\<rparr>
        in case cleanup of
             Some hook \<Rightarrow> ((hook c2, d1), snd s)
           | None \<Rightarrow> ((c2, d1), snd s))"

definition isDestroyed :: "('o, 'z) Component_scheme \<Rightarrow> bool" where
  "isDestroyed c = destroyed c"

text \<open>
  The order of teardown in the words of the specification, to compare \<open>destroy\<close> with:
  (1) remove the tracked listeners, (2) run the cleanup hook if supplied, (3) set the
  destroyed flag.
\<close>

definition destroy_in_specified_order :: "(('o, 'z) Component_scheme \<Rightarrow> ('o, 'z) Component_scheme) option
    \<Rightarrow> (('o, 'z) Component_scheme \<times> dom) \<times> 'a env \<Rightarrow> (('o, 'z) Component_scheme \<times> dom) \<times> 'a env" where
  "destroy_in_specified_order cleanup s =
     (let c = fst (fst s) in
      if destroyed c then s
      else
        let d1 = untrack_all (eventTarget c) (component_listeners c) (snd (fst s));
            c1 = c\<lparr>component_listeners := []\<rparr>;
            c2 = (case cleanup of Some hook \<Rightarrow> hook c1 | None \<Rightarrow> c1)
        in ((c2\<lparr>destroyed := True\<rparr>, d1), snd s))"

text \<open>
  A concrete widget in its smallest form: \<open>init\<close> registers the given listeners, each on
  its target, through the tracked helper, and does nothing else.
\<close>

definition tracking_init :: "(node \<times> string \<times> callable) list
    \<Rightarrow> (('o, 'z) Component_scheme \<times> dom) \<times> 'a env \<Rightarrow> (unit, (('o, 'z) Component_scheme \<times> dom) \<times> 'a env) outcome" where
  "tracking_init regs s =
     Returned () (fold (\<lambda>r s'. Component_addEventListener (fst r) (fst (snd r)) (snd (snd r)) s') regs s)"

section \<open>Switch: \<open>switch/Switch.ts\<close>\<close>

text \<open>
  A field of the object is \<open>None\<close> while it is \<open>undefined\<close> or \<open>null\<close>. Reading a property
  of such a field, or calling a method on it, throws a \<open>TypeError\<close>. The attribute writes
  of \<open>setupAttributes\<close> and \<open>updateDisplay\<close> leave no trace in the model except for the
  fields they read on the way. The private fields \<open>required\<close>, \<open>disabled\<close>, \<open>value\<close>,
  \<open>name\<close> and \<open>form\<close> of the object are \<open>this_required\<close> to \<open>this_form\<close> here, and the
  option \<open>value\<close> is \<open>value_option\<close>.
\<close>

record SwitchOptions =
  checked :: "bool option"
  defaultChecked :: "bool option"
  required :: "bool option"
  disabled :: "bool option"
  value_option :: "string option"
  name :: "string option"
  form :: "string option"
  onCheckedChange :: "fid option"

record SwitchElements =
  root :: node
  thumb :: "node option"
  bubbleInput :: "node option"

record Switch = "SwitchOptions Component" +
  checkedState :: "bool StateManager option"
  elements :: "SwitchElements option"
  this_required :: "bool option"
  this_disabled :: "bool option"
  this_value :: "string option"
  this_name :: "string option"
  this_form :: "string option"
  hasConsumerStoppedPropagation :: "bool option"

type_synonym switch_state = "(Switch \<times> dom) \<times> bool env"

definition no_switch_options :: SwitchOptions where
  "no_switch_options =
     \<lparr>checked = None, defaultChecked = None, required = None, disabled = None,
      value_option = None, name = None, form = None, onCheckedChange = None\<rparr>"

text \<open>Sequencing: a statement that throws ends the method.\<close>

definition and_then :: "(unit, 's) outcome \<Rightarrow> ('s \<Rightarrow> (unit, 's) outcome) \<Rightarrow> (unit, 's) outcome" where
  "and_then r k = (case r of Returned u s \<Rightarrow> k s | Threw x s \<Rightarrow> Threw x s)"

text \<open>
  \<open>findElements\<close>. In its first statement, \<open>this.elements.thumb = this.querySelector(...)
  || this.createElement(...)\<close>, the right-hand side is evaluated before the assignment
  finds \<open>this.elements\<close> undefined.
\<close>

definition findElements :: "switch_state \<Rightarrow> (unit, switch_state) outcome" where
  "findElements s =
     (let sw = fst (fst s); d = snd (fst s);
          found = query d (element sw) ''[data-switch-thumb]'';
          (th, d1) = (case found of Some n \<Rightarrow> (n, d) | None \<Rightarrow> createElement d)
      in case elements sw of
           None \<Rightarrow> Threw (TypeError ''Cannot set properties of undefined (setting 'thumb')'') ((sw, d1), snd s)
         | Some els \<Rightarrow>
             let (input, d2) = createElement d1;
                 d3 = (if query d2 (element sw) ''[data-switch-thumb]'' = None
                       then d2\<lparr>query := (query d2)(element sw := (query d2 (element sw))(''[data-switch-thumb]'' \<mapsto> th))\<rparr>
                       else d2)
             in Returned () ((sw\<lparr>elements := Some (els\<lparr>thumb := Some th, bubbleInput := Some input\<rparr>)\<rparr>, d3), snd s))"

definition setupAttributes :: "switch_state \<Rightarrow> (unit, switch_state) outcome" where
  "setupAttributes s =
     (case elements (fst (fst s)) of
        None \<Rightarrow> Threw (TypeError ''Cannot read properties of undefined (reading 'bubbleInput')'') s
      | Some els \<Rightarrow>
          (case bubbleInput els of
             None \<Rightarrow> Threw (TypeError ''Cannot read properties of null (reading 'setAttribute')'') s
           | Some input \<Rightarrow> Returned () s))"

text \<open>
  \<open>setupEventListeners\<close> creates two closures: the subscriber of the checked state, and
  the click listener \<open>(e) => this.handleClick(e)\<close>. Each takes its identity from the
  counter of closures. The body of the subscriber rewrites attributes and dispatches
  \<open>checkedChange\<close> on the component's event target; to the cell it is a function like any
  other.
\<close>

definition setupEventListeners :: "switch_state \<Rightarrow> (unit, switch_state) outcome" where
  "setupEventListeners s =
     (let sw = fst (fst s); d = snd (fst s); e = snd s in
      case checkedState sw of
        None \<Rightarrow> Threw (TypeError ''Cannot read properties of undefined (reading 'subscribe')'') s
      | Some cs \<Rightarrow>
          let onChecked = allocated e;
              (w, cs', e1) = subscribe onChecked (cs, e\<lparr>allocated := Suc (allocated e)\<rparr>);
              onClick = allocated e1;
              e2 = e1\<lparr>allocated := Suc (allocated e1)\<rparr>
          in Returned ()
               (Component_addEventListener (element sw) ''click'' (Fn onClick)
                  ((sw\<lparr>checkedState := Some cs'\<rparr>, d), e2)))"

definition updateDisplay :: "switch_state \<Rightarrow> (unit, switch_state) outcome" where
  "updateDisplay s =
     (let sw = fst (fst s) in
      case checkedState sw of
        None \<Rightarrow> Threw (TypeError ''Cannot read properties of undefined (reading 'getValue')'') s
      | Some cs \<Rightarrow>
          (case this_required sw of
             None \<Rightarrow> Threw (TypeError ''Cannot read properties of undefined (reading 'toString')'') s
           | Some r \<Rightarrow>
               (case elements sw of
                  None \<Rightarrow> Threw (TypeError ''Cannot read properties of undefined (reading 'thumb')'') s
                | Some els \<Rightarrow>
                    (case thumb els of
                       None \<Rightarrow> Threw (TypeError ''Cannot read properties of null (reading 'setAttribute')'') s
                     | Some th \<Rightarrow>
                         (case bubbleInput els of
                            None \<Rightarrow> Threw (TypeError ''Cannot set properties of null (setting 'checked')'') s
                          | Some input \<Rightarrow> Returned () s)))))"

definition Switch_init :: "switch_state \<Rightarrow> (unit, switch_state) outcome" where
  "Switch_init s =
     and_then (and_then (and_then (findElements s) setupAttributes) setupEventListeners) updateDisplay"

text \<open>The subclass part of the object while the constructor of the base runs.\<close>

definition blank_Switch :: "unit Switch_ext" where
  "blank_Switch =
     Switch_ext None None None None None None None None ()"

text \<open>
  The constructor: \<open>super(element, options)\<close>, then the field initialiser and the
  assignments of the body (\<open>assign_fields\<close>).
\<close>

definition assign_fields :: "node \<Rightarrow> SwitchOptions \<Rightarrow> Switch \<Rightarrow> exn + Switch" where
  "assign_fields el opts this =
     (case createControllableState
             \<lparr>prop_value = checked opts,
              defaultProp = Some (case defaultChecked opts of Some b \<Rightarrow> b | None \<Rightarrow> False),
              onChange = onCheckedChange opts,
              caller = None\<rparr> of
        Inl x \<Rightarrow> Inl x
      | Inr cs \<Rightarrow>
          Inr (this\<lparr>hasConsumerStoppedPropagation := Some False,
                    checkedState := Some cs,
                    this_required := Some (case required opts of Some b \<Rightarrow> b | None \<Rightarrow> False),
                    this_disabled := Some (case disabled opts of Some b \<Rightarrow> b | None \<Rightarrow> False),
                    this_value := Some (case value_option opts of Some v \<Rightarrow> v | None \<Rightarrow> ''on''),
                    this_name := name opts,
                    this_form := form opts,
                    elements := Some \<lparr>root = el, thumb = None, bubbleInput = None\<rparr>\<rparr>))"

definition new_Switch :: "bool \<Rightarrow> node \<Rightarrow> SwitchOptions \<Rightarrow> dom \<times> bool env \<Rightarrow> (Switch, dom \<times> bool env) outcome" where
  "new_Switch canUseDOM el opts s =
     (case new_Component canUseDOM Switch_init el opts blank_Switch s of
        Threw x s' \<Rightarrow> Threw x s'
      | Returned this s' \<Rightarrow>
          (case assign_fields el opts this of
             Inl x \<Rightarrow> Threw x s'
           | Inr sw \<Rightarrow> Returned sw s'))"

text \<open>
  \<open>handleClick\<close>. It calls \<open>setValue\<close> of the cell, not the guarded setter.
  \<open>this.form || !!this.element.closest('form')\<close> is read before, the event after.
\<close>

definition handleClick :: "bool raises \<Rightarrow> bool event \<Rightarrow> switch_state \<Rightarrow> (unit, switch_state) outcome" where
  "handleClick raises ev s =
     (let sw = fst (fst s); d = snd (fst s) in
      if this_disabled sw = Some True then Returned () s
      else
        let isFormControl =
              ((case this_form sw of Some f \<Rightarrow> f \<noteq> [] | None \<Rightarrow> False)
               \<or> closest d (element sw) ''form'' \<noteq> None)
        in case checkedState sw of
             None \<Rightarrow> Threw (TypeError ''Cannot read properties of null (reading 'setValue')'') s
           | Some cs \<Rightarrow>
               (case setValue raises (\<not> getValue cs) (cs, snd s) of
                  Threw x r \<Rightarrow> Threw x ((sw\<lparr>checkedState := Some (fst r)\<rparr>, d), snd r)
                | Returned u r \<Rightarrow>
                    Returned ()
                      ((sw\<lparr>checkedState := Some (fst r),
                            hasConsumerStoppedPropagation :=
                              (if isFormControl then Some (defaultPrevented ev)
                               else hasConsumerStoppedPropagation sw)\<rparr>, d), snd r)))"

definition setChecked :: "bool raises \<Rightarrow> bool \<Rightarrow> switch_state \<Rightarrow> (unit, switch_state) outcome" where
  "setChecked raises b s =
     (let sw = fst (fst s) in
      case checkedState sw of
        None \<Rightarrow> Threw (TypeError ''Cannot read properties of null (reading 'setValue')'') s
      | Some cs \<Rightarrow>
          (case setValue raises b (cs, snd s) of
             Threw x r \<Rightarrow> Threw x ((sw\<lparr>checkedState := Some (fst r)\<rparr>, snd (fst s)), snd r)
           | Returned u r \<Rightarrow> Returned () ((sw\<lparr>checkedState := Some (fst r)\<rparr>, snd (fst s)), snd r)))"

definition getChecked :: "Switch \<Rightarrow> exn + bool" where
  "getChecked sw =
     (case checkedState sw of
        None \<Rightarrow> Inl (TypeError ''Cannot read properties of null (reading 'getValue')'')
      | Some cs \<Rightarrow> Inr (getValue cs))"

definition Switch_cleanup :: "Switch \<Rightarrow> Switch" where
  "Switch_cleanup sw = sw\<lparr>checkedState := None, elements := None\<rparr>"

section \<open>Observations and examples\<close>

subsection \<open>Callers whose functions never throw, or always throw\<close>

definition never_raises :: "'a raises" where
  "never_raises tr = False"

definition always_raises :: "'a raises" where
  "always_raises tr = True"

text \<open>The function \<open>f\<close> throws whenever it is invoked; no other function throws.\<close>

definition only_raises :: "fid \<Rightarrow> 'a raises" where
  "only_raises f tr \<longleftrightarrow> tr \<noteq> [] \<and> callee (last tr) = f"

subsection \<open>What a caller can observe of a cell\<close>

definition change_event :: "'a \<Rightarrow> 'a \<Rightarrow> 'a event" where
  "change_event newValue oldValue = CustomEvent ''change'' (Change newValue oldValue)"

text \<open>One notification: every listener of \<open>change\<close> called once, in order of registration.\<close>

definition notification :: "'a \<Rightarrow> 'a \<Rightarrow> ('a, 'z) StateManager_scheme \<Rightarrow> 'a call list" where
  "notification newValue oldValue c =
     map (call_of (change_event newValue oldValue)) (registered ''change'' c)"

text \<open>The call \<open>this.options.onChange?.(newValue)\<close>, if there is a callback.\<close>

definition onChange_call :: "('a, 'z) StateManager_scheme \<Rightarrow> 'a \<Rightarrow> 'a call list" where
  "onChange_call c v = (case onChange (options c) of Some f \<Rightarrow> [OnChangeCall f v] | None \<Rightarrow> [])"

text \<open>The callback, called next with \<open>v\<close>, would return rather than throw.\<close>

definition callback_returns :: "'a raises \<Rightarrow> ('a, 'z) StateManager_scheme \<times> 'a env \<Rightarrow> 'a \<Rightarrow> bool" where
  "callback_returns raises s v \<longleftrightarrow>
     (case onChange (options (fst s)) of
        Some f \<Rightarrow> \<not> raises (calls (snd s) @ [OnChangeCall f v])
      | None \<Rightarrow> True)"

text \<open>
  Two cells of booleans, each with the callback 7 and the subscriber 9: one constructed with
  the prop value \<open>false\<close>, one with the default \<open>false\<close>.
\<close>

definition controlled_cell :: "bool StateManager \<times> bool env" where
  "controlled_cell =
     snd (subscribe 9 (new_StateManager False
            \<lparr>prop_value = Some False, defaultProp = None, onChange = Some 7, caller = None\<rparr>, env0))"

definition uncontrolled_cell :: "bool StateManager \<times> bool env" where
  "uncontrolled_cell =
     snd (subscribe 9 (new_StateManager True
            \<lparr>prop_value = None, defaultProp = Some False, onChange = Some 7, caller = None\<rparr>, env0))"

subsection \<open>Widgets used in examples\<close>

text \<open>A click on an element.\<close>

definition click :: "'a \<Rightarrow> 'a event" where
  "click p = CustomEvent ''click'' (Payload p)"

text \<open>
  A cleanup hook that stores what \<open>isDestroyed()\<close> returns in a field of the subclass,
  and a component with that field on node 2, its own event target being node 3, not
  destroyed. \<open>listening_probe\<close> is that component after it has registered, through the
  tracked helper, the click listener 7 on its root and the listener 8 of the custom event
  \<open>valueChange\<close> on its own event target.
\<close>

definition recording_cleanup :: "('o, bool) Component_scheme \<Rightarrow> ('o, bool) Component_scheme" where
  "recording_cleanup c = Component.more_update (\<lambda>seen. isDestroyed c) c"

definition probe :: "(unit, bool) Component_scheme" where
  "probe = \<lparr>element = 2, component_options = (), eventTarget = 3,
            component_listeners = [], destroyed = False, \<dots> = False\<rparr>"

definition listening_probe :: "((unit, bool) Component_scheme \<times> dom) \<times> unit env" where
  "listening_probe =
     addCustomEventListener ''valueChange'' (Fn 8)
       (Component_addEventListener 2 ''click'' (Fn 7) ((probe, dom0\<lparr>nodes := 4\<rparr>), env0))"

text \<open>The options \<open>{ checked: false, onCheckedChange: cb }\<close> with \<open>cb\<close> the function 7.\<close>

definition controlled_options :: SwitchOptions where
  "controlled_options = no_switch_options\<lparr>checked := Some False, onCheckedChange := Some 7\<rparr>"

section \<open>Properties of the Event Hub\<close>

subsection \<open>The dispatch loop\<close>

lemma invoke_calls:
  "calls (snd (case invoke raises l ev s of Returned u s' \<Rightarrow> s' | Threw x s' \<Rightarrow> log_listener_error ev x s'))
     = calls (snd s) @ [call_of ev l]"
  by (cases l; cases s)
     (auto simp: call_fn_def Let_def log_listener_error_def split: outcome.splits prod.splits)

lemma forEach_listener_calls:
  "calls (snd (forEach_listener raises ev ls s)) = calls (snd s) @ map (call_of ev) ls"
proof (induction ls arbitrary: s)
  case Nil
  show ?case by simp
next
  case (Cons l ls)
  show ?case
    by (simp only: forEach_listener.simps Cons.IH invoke_calls) simp
qed

lemma invoke_console:
  "console (snd (case invoke raises l ev s of Returned u s' \<Rightarrow> s' | Threw x s' \<Rightarrow> log_listener_error ev x s'))
     = console (snd s) @ (if raises (calls (snd s) @ [call_of ev l]) then [listener_error ev l] else [])"
  by (cases l; cases s)
     (auto simp: call_fn_def Let_def log_listener_error_def listener_error_def
           split: outcome.splits prod.splits)

lemma forEach_listener_console_mono:
  "set (console (snd s)) \<subseteq> set (console (snd (forEach_listener raises ev ls s)))"
proof (induction ls arbitrary: s)
  case Nil
  show ?case by simp
next
  case (Cons l ls)
  have "set (console (snd s)) \<subseteq> set (console (snd (case invoke raises l ev s of
          Returned u s' \<Rightarrow> s' | Threw x s' \<Rightarrow> log_listener_error ev x s')))"
    by (simp add: invoke_console)
  also have "\<dots> \<subseteq> set (console (snd (forEach_listener raises ev (l # ls) s)))"
    using Cons.IH by simp
  finally show ?case .
qed

lemma forEach_listener_logs:
  "i < length ls \<Longrightarrow> raises (calls (snd s) @ map (call_of ev) (take (Suc i) ls))
     \<Longrightarrow> listener_error ev (ls ! i) \<in> set (console (snd (forEach_listener raises ev ls s)))"
proof (induction ls arbitrary: s i)
  case Nil
  then show ?case by simp
next
  case (Cons l ls)
  let ?s1 = "case invoke raises l ev s of Returned u s' \<Rightarrow> s' | Threw x s' \<Rightarrow> log_listener_error ev x s'"
  show ?case
  proof (cases i)
    case 0
    with Cons.prems have "listener_error ev l \<in> set (console (snd ?s1))"
      by (simp add: invoke_console)
    then show ?thesis
      using forEach_listener_console_mono [of ?s1 raises ev ls] 0 by auto
  next
    case (Suc j)
    with Cons.prems have "j < length ls"
      and "raises (calls (snd ?s1) @ map (call_of ev) (take (Suc j) ls))"
      by (simp_all add: invoke_calls)
    from Cons.IH [OF this] show ?thesis using Suc by simp
  qed
qed

lemma dispatchEvent_isolates_listeners:
  "\<exists>s'. dispatchEvent raises ev s = Returned (\<not> defaultPrevented ev) s'
     \<and> calls (snd s') = calls (snd s) @ map (call_of ev) (registered (type ev) (fst s))
     \<and> (\<forall>i < length (registered (type ev) (fst s)).
          raises (calls (snd s) @ map (call_of ev) (take (Suc i) (registered (type ev) (fst s))))
          \<longrightarrow> listener_error ev (registered (type ev) (fst s) ! i) \<in> set (console (snd s')))"
proof (cases "listeners (fst s) (type ev)")
  case None
  then show ?thesis by (simp add: dispatchEvent_def registered_def)
next
  case (Some ls)
  then show ?thesis
    by (simp add: dispatchEvent_def registered_def forEach_listener_calls forEach_listener_logs)
qed

lemma registered_add:
  "registered t (addEventListener t l h) = set_add l (registered t h)"
  by (simp add: registered_def addEventListener_def Let_def)


lemma registered_new: "registered t new_EventTarget = []"
  by (simp add: registered_def new_EventTarget_def)

subsection \<open>Isolation of listeners\<close>

text \<open>
  Claim C6. \<open>emit\<close> always returns to its caller. It invokes every listener registered
  for the event name, in the order of registration, whatever the listeners before it did;
  and each listener whose invocation throws has its error written to the console.
\<close>

theorem emit_isolates_listeners:
  "\<exists>s'. emit raises t d s = Returned () s'
     \<and> calls (snd s') = calls (snd s) @ map (call_of (CustomEvent t (Payload d))) (registered t (fst s))
     \<and> (\<forall>i < length (registered t (fst s)).
          raises (calls (snd s) @ map (call_of (CustomEvent t (Payload d))) (take (Suc i) (registered t (fst s))))
          \<longrightarrow> listener_error (CustomEvent t (Payload d)) (registered t (fst s) ! i) \<in> set (console (snd s')))"
proof -
  let ?ev = "CustomEvent t (Payload d)"
  have ty: "type ?ev = t" by (simp add: CustomEvent_def)
  from dispatchEvent_isolates_listeners [of raises ?ev s]
  obtain s' where d: "dispatchEvent raises ?ev s = Returned (\<not> defaultPrevented ?ev) s'"
    and c: "calls (snd s') = calls (snd s) @ map (call_of ?ev) (registered t (fst s))"
    and l: "\<forall>i < length (registered t (fst s)).
          raises (calls (snd s) @ map (call_of ?ev) (take (Suc i) (registered t (fst s))))
          \<longrightarrow> listener_error ?ev (registered t (fst s) ! i) \<in> set (console (snd s'))"
    unfolding ty by blast
  from d have "emit raises t d s = Returned () s'" by (simp add: emit_def)
  with c l show ?thesis by blast
qed

text \<open>Three listeners, the second of which throws: all three run, and the throw is logged.\<close>

theorem emit_isolates_listeners_witness:
  "\<exists>s'. emit (only_raises 3) ''x'' (7::nat)
            (addEventListener ''x'' (Fn 4) (addEventListener ''x'' (Fn 3)
               (addEventListener ''x'' (Fn 2) new_EventTarget)), env0)
          = Returned () s'
      \<and> calls (snd s') = [ListenerCall 2 (CustomEvent ''x'' (Payload 7)),
                           ListenerCall 3 (CustomEvent ''x'' (Payload 7)),
                           ListenerCall 4 (CustomEvent ''x'' (Payload 7))]
      \<and> listener_error (CustomEvent ''x'' (Payload 7)) (Fn 3) \<in> set (console (snd s'))"
proof -
  let ?h = "addEventListener ''x'' (Fn 4) (addEventListener ''x'' (Fn 3)
              (addEventListener ''x'' (Fn 2) new_EventTarget))"
  let ?ev = "CustomEvent ''x'' (Payload (7::nat))"
  have r: "registered ''x'' ?h = [Fn 2, Fn 3, Fn 4]"
    by (simp add: registered_add set_add_def registered_new)
  from emit_isolates_listeners [of "only_raises 3" "''x''" "7::nat" "(?h, env0)"]
  obtain s' where e: "emit (only_raises 3) ''x'' (7::nat) (?h, env0) = Returned () s'"
    and c: "calls (snd s') = calls (snd (?h, env0::nat env))
              @ map (call_of ?ev) (registered ''x'' (fst (?h, env0::nat env)))"
    and l: "\<forall>i < length (registered ''x'' (fst (?h, env0::nat env))).
          only_raises 3 (calls (snd (?h, env0::nat env))
              @ map (call_of ?ev) (take (Suc i) (registered ''x'' (fst (?h, env0::nat env)))))
          \<longrightarrow> listener_error ?ev (registered ''x'' (fst (?h, env0::nat env)) ! i) \<in> set (console (snd s'))"
    by blast
  from c have c': "calls (snd s') = [ListenerCall 2 ?ev, ListenerCall 3 ?ev, ListenerCall 4 ?ev]"
    by (simp add: r env0_def)
  from l [rule_format, of 1] have "listener_error ?ev (Fn 3) \<in> set (console (snd s'))"
    by (simp add: r env0_def only_raises_def)
  with e c' show ?thesis by blast
qed

subsection \<open>Set semantics of registration\<close>















subsection \<open>One-time listeners\<close>

text \<open>
  Claim C7. \<open>once(x, fn)\<close> is to make \<open>fn\<close> fire at most once. The closure that \<open>once\<close>
  registers calls \<open>fn\<close> first and unregisters itself afterwards. Here \<open>fn\<close> is function 5
  and throws: after the first \<open>emit\<close> the closure is still registered, and the second
  \<open>emit\<close> invokes \<open>fn\<close> again.
\<close>

theorem once_listener_runs_again_after_throwing:
  "invocations 5 (calls (snd (after (emit always_raises ''x'' (7::nat)
      (after (emit always_raises ''x'' 7 (once ''x'' 5 (new_EventTarget, env0)))))))) 
   = [ListenerCall 5 (CustomEvent ''x'' (Payload 7)), ListenerCall 5 (CustomEvent ''x'' (Payload 7))]
   \<and> registered ''x'' (fst (after (emit always_raises ''x'' (7::nat) (once ''x'' 5 (new_EventTarget, env0)))))
       = [OnceWrapped 0 ''x'' 5]"
  by (simp add: emit_def dispatchEvent_def once_def new_EventTarget_def env0_def addEventListener_def Let_def
     set_add_def CustomEvent_def call_fn_def always_raises_def log_listener_error_def invocations_def registered_def)

text \<open>With a function that returns, the second \<open>emit\<close> finds no listener.\<close>

lemma once_listener_removed_after_returning:
  "invocations 5 (calls (snd (after (emit never_raises ''x'' (7::nat)
      (after (emit never_raises ''x'' 7 (once ''x'' 5 (new_EventTarget, env0)))))))) 
   = [ListenerCall 5 (CustomEvent ''x'' (Payload 7))]"
  by (simp add: emit_def dispatchEvent_def once_def new_EventTarget_def env0_def addEventListener_def Let_def
     set_add_def CustomEvent_def call_fn_def never_raises_def log_listener_error_def invocations_def registered_def
     removeEventListener_def set_delete_def)

section \<open>Properties of the Observable Value Cell\<close>

subsection \<open>Dispatch leaves the fields of the cell alone\<close>

lemma invoke_fields:
  "cell_value (fst (case invoke raises l ev s of Returned u s' \<Rightarrow> s' | Threw x s' \<Rightarrow> log_listener_error ev x s'))
     = cell_value (fst s)
   \<and> isControlled (fst (case invoke raises l ev s of Returned u s' \<Rightarrow> s' | Threw x s' \<Rightarrow> log_listener_error ev x s'))
     = isControlled (fst s)
   \<and> options (fst (case invoke raises l ev s of Returned u s' \<Rightarrow> s' | Threw x s' \<Rightarrow> log_listener_error ev x s'))
     = options (fst s)"
  by (cases l; cases s)
     (auto simp: call_fn_def Let_def log_listener_error_def removeEventListener_def
           split: outcome.splits prod.splits option.splits)

lemma forEach_listener_fields:
  "cell_value (fst (forEach_listener raises ev ls s)) = cell_value (fst s)
   \<and> isControlled (fst (forEach_listener raises ev ls s)) = isControlled (fst s)
   \<and> options (fst (forEach_listener raises ev ls s)) = options (fst s)"
proof (induction ls arbitrary: s)
  case Nil
  show ?case by simp
next
  case (Cons l ls)
  show ?case
    by (simp only: forEach_listener.simps Cons.IH invoke_fields) 
qed

lemma dispatchEvent_cell:
  "\<exists>s'. dispatchEvent raises ev s = Returned (\<not> defaultPrevented ev) s'
     \<and> calls (snd s') = calls (snd s) @ map (call_of ev) (registered (type ev) (fst s))
     \<and> cell_value (fst s') = cell_value (fst s)
     \<and> isControlled (fst s') = isControlled (fst s)
     \<and> options (fst s') = options (fst s)"
proof (cases "listeners (fst s) (type ev)")
  case None
  then show ?thesis by (simp add: dispatchEvent_def registered_def)
next
  case (Some ls)
  then show ?thesis
    by (simp add: dispatchEvent_def registered_def forEach_listener_calls forEach_listener_fields)
qed
lemma type_change_event [simp]: "type (change_event v old) = ''change''"
  by (simp add: change_event_def CustomEvent_def)

lemma updateControlledValue_controlled:
  assumes "isControlled (fst s)"
  shows "\<exists>s'. updateControlledValue raises v s = Returned () s'
     \<and> calls (snd s') = calls (snd s) @ map (call_of (change_event v (cell_value (fst s)))) (registered ''change'' (fst s))
     \<and> cell_value (fst s') = v \<and> isControlled (fst s')"
proof -
  let ?s1 = "((fst s)\<lparr>cell_value := v\<rparr>, snd s)"
  from dispatchEvent_cell [of raises "change_event v (cell_value (fst s))" ?s1]
  obtain s' where "dispatchEvent raises (change_event v (cell_value (fst s))) ?s1 = Returned (\<not> defaultPrevented (change_event v (cell_value (fst s)))) s'"
     and "calls (snd s') = calls (snd ?s1) @ map (call_of (change_event v (cell_value (fst s)))) (registered ''change'' (fst ?s1))"
     and "cell_value (fst s') = cell_value (fst ?s1)" and "isControlled (fst s') = isControlled (fst ?s1)"
    by auto
  then show ?thesis using assms
    by (simp add: updateControlledValue_def Let_def change_event_def registered_def)
qed

lemma updateControlledValue_uncontrolled:
  "\<not> isControlled (fst s) \<Longrightarrow> updateControlledValue raises v s = Returned () s"
  by (simp add: updateControlledValue_def)

lemma setValue_same:
  "cell_value (fst s) = v \<Longrightarrow> setValue raises v s = Returned () s"
  by (simp add: setValue_def)
lemma setValue_changes:
  assumes "cell_value (fst s) \<noteq> v" and "\<forall>f. onChange (options (fst s)) = Some f \<longrightarrow> \<not> raises (calls (snd s) @ [OnChangeCall f v])"
  shows "\<exists>s'. setValue raises v s = Returned () s'
     \<and> calls (snd s') = calls (snd s) @ onChange_call (fst s) v
           @ map (call_of (change_event v (cell_value (fst s)))) (registered ''change'' (fst s))
     \<and> cell_value (fst s') = v \<and> isControlled (fst s') = isControlled (fst s) \<and> options (fst s') = options (fst s)"
proof -
  let ?s1 = "((fst s)\<lparr>cell_value := v\<rparr>, snd s)"
  let ?s2 = "((fst s)\<lparr>cell_value := v\<rparr>, (snd s)\<lparr>calls := calls (snd s) @ onChange_call (fst s) v\<rparr>)"
  have a: "(case onChange (options (fst s)) of
                   Some f \<Rightarrow> call_fn raises f (OnChangeCall f v) ?s1
                 | None \<Rightarrow> Returned () ?s1) = Returned () ?s2"
    using assms(2) by (auto simp: call_fn_def Let_def onChange_call_def split: option.splits)
  from dispatchEvent_cell [of raises "change_event v (cell_value (fst s))" ?s2]
  obtain s' where "dispatchEvent raises (change_event v (cell_value (fst s))) ?s2 = Returned (\<not> defaultPrevented (change_event v (cell_value (fst s)))) s'"
     and "calls (snd s') = calls (snd ?s2) @ map (call_of (change_event v (cell_value (fst s)))) (registered ''change'' (fst ?s2))"
     and "cell_value (fst s') = cell_value (fst ?s2)" and "isControlled (fst s') = isControlled (fst ?s2)"
     and "options (fst s') = options (fst ?s2)"
    by auto
  then show ?thesis using assms(1) a
    by (simp add: setValue_def Let_def change_event_def registered_def)
qed

lemma setValue_onChange_throws:
  assumes "cell_value (fst s) \<noteq> v" and "onChange (options (fst s)) = Some f" and "raises (calls (snd s) @ [OnChangeCall f v])"
  shows "setValue raises v s = Threw (Thrown f) ((fst s)\<lparr>cell_value := v\<rparr>, (snd s)\<lparr>calls := calls (snd s) @ [OnChangeCall f v]\<rparr>)"
  using assms by (simp add: setValue_def Let_def call_fn_def)

lemmas cell_eval =
  controlled_cell_def uncontrolled_cell_def subscribe_def new_StateManager_def env0_def
  addEventListener_def set_add_def Let_def

lemma controlled_cell_facts:
  "isControlled (fst controlled_cell)" "cell_value (fst controlled_cell) = False"
  "options (fst controlled_cell) = \<lparr>prop_value = Some False, defaultProp = None, onChange = Some 7, caller = None\<rparr>"
  "registered ''change'' (fst controlled_cell) = [SubscribeWrapped 0 9]"
  "calls (snd controlled_cell) = []" "console (snd controlled_cell) = []"
  by (simp_all add: cell_eval registered_def)

lemma uncontrolled_cell_facts:
  "\<not> isControlled (fst uncontrolled_cell)" "cell_value (fst uncontrolled_cell) = False"
  "options (fst uncontrolled_cell) = \<lparr>prop_value = None, defaultProp = Some False, onChange = Some 7, caller = None\<rparr>"
  "registered ''change'' (fst uncontrolled_cell) = [SubscribeWrapped 0 9]"
  "calls (snd uncontrolled_cell) = []" "console (snd uncontrolled_cell) = []"
  by (simp_all add: cell_eval registered_def)

lemma setValue_value: "cell_value (fst (after (setValue raises v s))) = v"
proof (cases "cell_value (fst s) = v")
  case True
  then show ?thesis by (simp add: setValue_same)
next
  case False
  show ?thesis
  proof (cases "\<forall>f. onChange (options (fst s)) = Some f \<longrightarrow> \<not> raises (calls (snd s) @ [OnChangeCall f v])")
    case True
    from setValue_changes [OF False True] show ?thesis by auto
  next
    case False
    then obtain f where "onChange (options (fst s)) = Some f" "raises (calls (snd s) @ [OnChangeCall f v])"
      by blast
    with \<open>cell_value (fst s) \<noteq> v\<close> show ?thesis
      by (simp add: setValue_onChange_throws [of s v f raises])
  qed
qed

lemma callback_returns_iff:
  "callback_returns raises s v \<longleftrightarrow> (\<forall>f. onChange (options (fst s)) = Some f \<longrightarrow> \<not> raises (calls (snd s) @ [OnChangeCall f v]))"
  by (simp add: callback_returns_def split: option.splits)

lemma set_value_controlled:
  "isControlled (fst s) \<Longrightarrow>
     set_value raises v s = Returned () (fst s, (snd s)\<lparr>console := console (snd s) @ [controlled_warning (options (fst s))]\<rparr>)"
  by (simp add: set_value_def)

lemma set_value_uncontrolled:
  "\<not> isControlled (fst s) \<Longrightarrow> set_value raises v s = setValue raises v s"
  by (simp add: set_value_def)
lemma onChange_calls_append: "onChange_calls (xs @ ys) = onChange_calls xs @ onChange_calls ys"
  by (simp add: onChange_calls_def)

lemma onChange_calls_map_call_of: "onChange_calls (map (call_of ev) ls) = []"
proof (induction ls)
  case Nil
  show ?case by (simp add: onChange_calls_def)
next
  case (Cons l ls)
  then show ?case by (cases l) (simp_all add: onChange_calls_def)
qed

lemma onChange_calls_OnChange:
  "onChange_calls (OnChangeCall f v # xs) = OnChangeCall f v # onChange_calls xs"
  by (simp add: onChange_calls_def)

lemma onChange_calls_notification: "onChange_calls (notification v old c) = []"
  by (simp add: notification_def onChange_calls_map_call_of)

lemma setValue_changes':
  assumes "getValue c \<noteq> v" and "callback_returns raises (c, e) v"
  shows "\<exists>s'. setValue raises v (c, e) = Returned () s'
     \<and> calls (snd s') = calls e @ onChange_call c v @ notification v (getValue c) c
     \<and> getValue (fst s') = v \<and> isControlled (fst s') = isControlled c"
proof -
  from assms have a: "cell_value (fst (c, e)) \<noteq> v"
    and b: "\<forall>f. onChange (options (fst (c, e))) = Some f \<longrightarrow> \<not> raises (calls (snd (c, e)) @ [OnChangeCall f v])"
    by (simp_all add: getValue_def callback_returns_iff)
  from setValue_changes [OF a b] show ?thesis
    by (auto simp: getValue_def notification_def)
qed

lemma updateControlledValue_controlled':
  assumes "isControlledState c"
  shows "\<exists>s'. updateControlledValue raises v (c, e) = Returned () s'
     \<and> calls (snd s') = calls e @ notification v (getValue c) c \<and> getValue (fst s') = v"
proof -
  from assms have "isControlled (fst (c, e))" by (simp add: isControlledState_def)
  from updateControlledValue_controlled [OF this, of raises v] show ?thesis
    by (auto simp: getValue_def notification_def)
qed

subsection \<open>Construction\<close>

text \<open>
  Claim C9. \<open>createControllableState\<close> raises its configuration error exactly when neither
  a prop value nor a default is supplied; it has no fallback. Otherwise it returns a cell
  that is controlled exactly when a prop value is present and whose initial value is the
  prop value if present, else the default. The constructor, which takes a fallback value,
  decides in the same way and falls back on that value last.
\<close>

theorem createControllableState_result:
  "(prop_value opts = None \<and> defaultProp opts = None \<longrightarrow>
      (\<exists>msg. createControllableState opts = Inl (Error msg)))
   \<and> (prop_value opts \<noteq> None \<or> defaultProp opts \<noteq> None \<longrightarrow>
        (\<exists>c. createControllableState opts = Inr c
           \<and> (isControlledState c \<longleftrightarrow> prop_value opts \<noteq> None)
           \<and> Some (getValue c) = (case prop_value opts of Some p \<Rightarrow> Some p | None \<Rightarrow> defaultProp opts)))
   \<and> (isControlledState (new_StateManager i opts) \<longleftrightarrow> prop_value opts \<noteq> None)
   \<and> getValue (new_StateManager i opts)
        = (case prop_value opts of
             Some p \<Rightarrow> p
           | None \<Rightarrow> (case defaultProp opts of Some d \<Rightarrow> d | None \<Rightarrow> i))"
  by (auto simp: createControllableState_def new_StateManager_def isControlledState_def getValue_def
           split: option.splits)

theorem createControllableState_result_witness:
  "(\<exists>msg. createControllableState (no_options :: bool StateOptions) = Inl (Error msg))
   \<and> (\<exists>c. createControllableState (no_options\<lparr>prop_value := Some True, defaultProp := Some False\<rparr>) = Inr c
          \<and> isControlledState c \<and> getValue c = True)
   \<and> (\<exists>c. createControllableState (no_options\<lparr>defaultProp := Some False\<rparr>) = Inr c
          \<and> \<not> isControlledState c \<and> getValue c = False)"
proof -
  have a: "\<exists>msg. createControllableState (no_options :: bool StateOptions) = Inl (Error msg)"
    using createControllableState_result [of "no_options :: bool StateOptions"]
    by (simp add: no_options_def)
  from createControllableState_result [of "no_options\<lparr>prop_value := Some True, defaultProp := Some False\<rparr>"]
  have b: "\<exists>c. createControllableState (no_options\<lparr>prop_value := Some True, defaultProp := Some False\<rparr>) = Inr c
          \<and> isControlledState c \<and> getValue c = True"
    by (simp add: no_options_def)
  from createControllableState_result [of "no_options\<lparr>defaultProp := Some False\<rparr>"]
  have c: "\<exists>c. createControllableState (no_options\<lparr>defaultProp := Some False\<rparr>) = Inr c
          \<and> \<not> isControlledState c \<and> getValue c = False"
    by (simp add: no_options_def)
  from a b c show ?thesis by blast
qed

subsection \<open>Mutation of a controlled cell\<close>

text \<open>
  Claim C2, as the code has it. On a controlled cell the setter \<open>value = v\<close> logs a warning
  and does nothing else: the cell, its listeners and the trace of calls are unchanged, and
  the setter returns. \<open>updateControlledValue(x)\<close> makes \<open>getValue()\<close> return \<open>x\<close>; and so
  does the method \<open>setValue(x)\<close>, which has no guard for controlled cells.
\<close>

theorem controlled_cell_mutation:
  assumes "isControlledState c"
  shows "set_value raises v (c, e)
           = Returned () (c, e\<lparr>console := console e @ [controlled_warning (options c)]\<rparr>)
     \<and> (\<exists>s'. updateControlledValue raises x (c, e) = Returned () s' \<and> getValue (fst s') = x)
     \<and> getValue (fst (after (setValue raises x (c, e)))) = x"
proof -
  from assms have ic: "isControlled (fst (c, e))" by (simp add: isControlledState_def)
  from updateControlledValue_controlled [OF ic, of raises x]
  have "\<exists>s'. updateControlledValue raises x (c, e) = Returned () s' \<and> getValue (fst s') = x"
    by (auto simp: getValue_def)
  then show ?thesis
    using set_value_controlled [OF ic, of raises v] setValue_value [of raises x "(c, e)"]
    by (simp add: getValue_def)
qed

theorem controlled_cell_mutation_witness:
  "isControlledState (fst controlled_cell)
   \<and> set_value never_raises True controlled_cell
       = Returned () (fst controlled_cell,
           (snd controlled_cell)\<lparr>console := [ConsoleWarn ''[StateManager] Cannot set value on controlled state. Use the onChange callback instead.'']\<rparr>)
   \<and> getValue (fst controlled_cell) = False
   \<and> (\<exists>s'. updateControlledValue never_raises True controlled_cell = Returned () s' \<and> getValue (fst s') = True)"
proof -
  have ic: "isControlledState (fst controlled_cell)"
    by (simp add: isControlledState_def controlled_cell_facts)
  from controlled_cell_mutation [OF ic, of never_raises True "snd controlled_cell" True]
  show ?thesis
    using ic by (simp add: controlled_cell_facts controlled_warning_def caller_or_def getValue_def)
qed

text \<open>
  Claim C2 as stated fails: \<open>updateControlledValue\<close> is not the only operation that
  changes what \<open>getValue()\<close> returns on a controlled cell. \<open>setValue(true)\<close> on the
  controlled cell holding \<open>false\<close> stores \<open>true\<close>, calls the callback and notifies.
\<close>

theorem setValue_mutates_controlled_cell:
  "isControlledState (fst controlled_cell)
   \<and> getValue (fst controlled_cell) = False
   \<and> getValue (fst (after (setValue never_raises True controlled_cell))) = True
   \<and> calls (snd (after (setValue never_raises True controlled_cell)))
       = [OnChangeCall 7 True, SubscriberCall 9 (Some True)]"
  by (simp add: isControlledState_def getValue_def setValue_def Let_def call_fn_def never_raises_def
        dispatchEvent_def CustomEvent_def cell_eval)

subsection \<open>When a notification fires\<close>

text \<open>
  Claim C3, as the code has it. \<open>setValue\<close> with the value the cell holds does nothing:
  no callback, no notification. \<open>setValue\<close> with another value, when the callback returns,
  calls the callback and then notifies every listener of \<open>change\<close> once.
  \<open>updateControlledValue\<close> on a controlled cell notifies without comparing, also when the
  value is the one the cell holds. On an uncontrolled cell, setting the same new value twice
  in a row notifies once: the second assignment changes nothing.
\<close>

theorem change_notification:
  "(getValue c = v \<longrightarrow> setValue raises v (c, e) = Returned () (c, e))
   \<and> (getValue c \<noteq> v \<and> callback_returns raises (c, e) v \<longrightarrow>
        (\<exists>s'. setValue raises v (c, e) = Returned () s'
           \<and> calls (snd s') = calls e @ onChange_call c v @ notification v (getValue c) c))
   \<and> (isControlledState c \<longrightarrow>
        (\<exists>s'. updateControlledValue raises v (c, e) = Returned () s'
           \<and> calls (snd s') = calls e @ notification v (getValue c) c))
   \<and> (\<not> isControlledState c \<and> getValue c \<noteq> v \<and> callback_returns raises (c, e) v \<longrightarrow>
        (\<exists>s'. set_value raises v (c, e) = Returned () s' \<and> set_value raises v s' = Returned () s'
           \<and> calls (snd s') = calls e @ onChange_call c v @ notification v (getValue c) c))"
proof (intro conjI impI)
  assume "getValue c = v"
  then show "setValue raises v (c, e) = Returned () (c, e)"
    by (simp add: setValue_same getValue_def)
next
  assume "getValue c \<noteq> v \<and> callback_returns raises (c, e) v"
  then show "\<exists>s'. setValue raises v (c, e) = Returned () s'
           \<and> calls (snd s') = calls e @ onChange_call c v @ notification v (getValue c) c"
    using setValue_changes' [of c v raises e] by blast
next
  assume "isControlledState c"
  then show "\<exists>s'. updateControlledValue raises v (c, e) = Returned () s'
           \<and> calls (snd s') = calls e @ notification v (getValue c) c"
    using updateControlledValue_controlled' [of c raises v e] by blast
next
  assume a: "\<not> isControlledState c \<and> getValue c \<noteq> v \<and> callback_returns raises (c, e) v"
  then obtain s' where s: "setValue raises v (c, e) = Returned () s'"
    and c: "calls (snd s') = calls e @ onChange_call c v @ notification v (getValue c) c"
    and g: "getValue (fst s') = v" and i: "isControlled (fst s') = isControlled c"
    using setValue_changes' [of c v raises e] by blast
  from a have u: "\<not> isControlled (fst (c, e))" by (simp add: isControlledState_def)
  from a i have u': "\<not> isControlled (fst s')" by (simp add: isControlledState_def)
  have "set_value raises v (c, e) = Returned () s'"
    using s by (simp add: set_value_uncontrolled [OF u])
  moreover have "set_value raises v s' = Returned () s'"
    using g by (simp add: set_value_uncontrolled [OF u'] setValue_same getValue_def)
  ultimately show "\<exists>s'. set_value raises v (c, e) = Returned () s' \<and> set_value raises v s' = Returned () s'
           \<and> calls (snd s') = calls e @ onChange_call c v @ notification v (getValue c) c"
    using c by blast
qed

theorem change_notification_witness:
  "getValue (fst uncontrolled_cell) = False \<and> \<not> isControlledState (fst uncontrolled_cell)
   \<and> callback_returns never_raises uncontrolled_cell True
   \<and> setValue never_raises False uncontrolled_cell = Returned () uncontrolled_cell
   \<and> (\<exists>s'. set_value never_raises True uncontrolled_cell = Returned () s'
          \<and> set_value never_raises True s' = Returned () s'
          \<and> calls (snd s') = [OnChangeCall 7 True, SubscriberCall 9 (Some True)])
   \<and> isControlledState (fst controlled_cell)
   \<and> (\<exists>s'. updateControlledValue never_raises True controlled_cell = Returned () s'
          \<and> calls (snd s') = [SubscriberCall 9 (Some True)])"
proof -
  have g: "getValue (fst uncontrolled_cell) = False" and u: "\<not> isControlledState (fst uncontrolled_cell)"
    and r: "callback_returns never_raises uncontrolled_cell True"
    and k: "isControlledState (fst controlled_cell)"
    by (simp_all add: getValue_def isControlledState_def callback_returns_def never_raises_def
          uncontrolled_cell_facts controlled_cell_facts)
  have n: "notification True False (fst uncontrolled_cell) = [SubscriberCall 9 (Some True)]"
     "notification True False (fst controlled_cell) = [SubscriberCall 9 (Some True)]"
    by (simp_all add: notification_def uncontrolled_cell_facts controlled_cell_facts change_event_def CustomEvent_def)
  have o: "onChange_call (fst uncontrolled_cell) True = [OnChangeCall 7 True]"
    by (simp add: onChange_call_def uncontrolled_cell_facts)
  have gk: "getValue (fst controlled_cell) = False" by (simp add: getValue_def controlled_cell_facts)
  note t = change_notification [of "fst uncontrolled_cell" _ never_raises "snd uncontrolled_cell"]
  from t [of False] g have a: "setValue never_raises False uncontrolled_cell = Returned () uncontrolled_cell"
    by simp
  from t [of True] g u r
  have b: "\<exists>s'. set_value never_raises True uncontrolled_cell = Returned () s'
          \<and> set_value never_raises True s' = Returned () s'
          \<and> calls (snd s') = [OnChangeCall 7 True, SubscriberCall 9 (Some True)]"
    by (simp add: n o uncontrolled_cell_facts)
  from change_notification [of "fst controlled_cell" True never_raises "snd controlled_cell"] k
  have c: "\<exists>s'. updateControlledValue never_raises True controlled_cell = Returned () s'
          \<and> calls (snd s') = [SubscriberCall 9 (Some True)]"
    by (simp add: n gk controlled_cell_facts)
  from g u r a b k c show ?thesis by blast
qed

text \<open>
  Claim C3 as stated fails in both directions. \<open>updateControlledValue(false)\<close> on the
  controlled cell holding \<open>false\<close> notifies the subscriber although the value is identical;
  and \<open>setValue(true)\<close> on the cell holding \<open>false\<close>, with a callback that throws, stores
  \<open>true\<close> and notifies nobody.
\<close>

theorem notification_not_tied_to_value_change:
  "isControlledState (fst controlled_cell)
   \<and> getValue (fst controlled_cell) = False
   \<and> calls (snd (after (updateControlledValue never_raises False controlled_cell)))
       = [SubscriberCall 9 (Some False)]
   \<and> getValue (fst uncontrolled_cell) = False
   \<and> getValue (fst (after (setValue always_raises True uncontrolled_cell))) = True
   \<and> calls (snd (after (setValue always_raises True uncontrolled_cell))) = [OnChangeCall 7 True]"
  by (simp add: isControlledState_def getValue_def setValue_def updateControlledValue_def Let_def call_fn_def
        never_raises_def always_raises_def dispatchEvent_def CustomEvent_def cell_eval)

subsection \<open>The callback and the controlled update\<close>

text \<open>
  Claim C10, as the code has it. \<open>updateControlledValue(v)\<close> never calls the \<open>onChange\<close>
  callback, on any cell. On a controlled cell it stores \<open>v\<close> and notifies the listeners of
  \<open>change\<close>; on an uncontrolled cell it changes nothing and calls nobody. The setter on a
  controlled cell calls nobody either. The callback is called by \<open>setValue\<close>, once for
  every change of value, whether the cell is controlled or not.
\<close>

theorem updateControlledValue_spares_onChange:
  "onChange_calls (calls (snd (after (updateControlledValue raises v (c, e))))) = onChange_calls (calls e)
   \<and> (isControlledState c \<longrightarrow>
        (\<exists>s'. updateControlledValue raises v (c, e) = Returned () s' \<and> getValue (fst s') = v
           \<and> calls (snd s') = calls e @ notification v (getValue c) c))
   \<and> (\<not> isControlledState c \<longrightarrow> updateControlledValue raises v (c, e) = Returned () (c, e))
   \<and> (isControlledState c \<longrightarrow> calls (snd (after (set_value raises v (c, e)))) = calls e)
   \<and> (\<forall>f. onChange (options c) = Some f \<and> getValue c \<noteq> v \<longrightarrow>
        onChange_calls (calls (snd (after (setValue raises v (c, e)))))
          = onChange_calls (calls e) @ [OnChangeCall f v])"
proof (intro conjI impI allI)
  show "onChange_calls (calls (snd (after (updateControlledValue raises v (c, e))))) = onChange_calls (calls e)"
  proof (cases "isControlledState c")
    case True
    from updateControlledValue_controlled' [OF True, of raises v e] show ?thesis
      by (auto simp: onChange_calls_append onChange_calls_notification)
  next
    case False
    then show ?thesis by (simp add: isControlledState_def updateControlledValue_uncontrolled)
  qed
next
  assume "isControlledState c"
  from updateControlledValue_controlled' [OF this, of raises v e]
  show "\<exists>s'. updateControlledValue raises v (c, e) = Returned () s' \<and> getValue (fst s') = v
           \<and> calls (snd s') = calls e @ notification v (getValue c) c"
    by blast
next
  assume "\<not> isControlledState c"
  then show "updateControlledValue raises v (c, e) = Returned () (c, e)"
    by (simp add: isControlledState_def updateControlledValue_uncontrolled)
next
  assume "isControlledState c"
  then show "calls (snd (after (set_value raises v (c, e)))) = calls e"
    by (simp add: isControlledState_def set_value_controlled)
next
  fix f
  assume a: "onChange (options c) = Some f \<and> getValue c \<noteq> v"
  show "onChange_calls (calls (snd (after (setValue raises v (c, e)))))
          = onChange_calls (calls e) @ [OnChangeCall f v]"
  proof (cases "raises (calls e @ [OnChangeCall f v])")
    case True
    with a show ?thesis
      by (simp add: setValue_onChange_throws [of "(c, e)" v f raises] getValue_def
            onChange_calls_append onChange_calls_OnChange) (simp add: onChange_calls_def)
  next
    case False
    with a have "callback_returns raises (c, e) v" by (simp add: callback_returns_def)
    from setValue_changes' [OF _ this] a
    obtain s' where "setValue raises v (c, e) = Returned () s'"
      and "calls (snd s') = calls e @ onChange_call c v @ notification v (getValue c) c"
      by blast
    with a show ?thesis
      by (simp add: onChange_calls_append onChange_calls_notification onChange_call_def
            onChange_calls_OnChange)
  qed
qed

theorem updateControlledValue_spares_onChange_witness:
  "isControlledState (fst controlled_cell)
   \<and> (\<exists>s'. updateControlledValue never_raises True controlled_cell = Returned () s'
          \<and> getValue (fst s') = True \<and> calls (snd s') = [SubscriberCall 9 (Some True)])
   \<and> calls (snd (after (set_value never_raises True controlled_cell))) = []
   \<and> \<not> isControlledState (fst uncontrolled_cell)
   \<and> updateControlledValue never_raises True uncontrolled_cell = Returned () uncontrolled_cell
   \<and> onChange (options (fst uncontrolled_cell)) = Some 7 \<and> getValue (fst uncontrolled_cell) \<noteq> True
   \<and> onChange_calls (calls (snd (after (setValue never_raises True uncontrolled_cell)))) = [OnChangeCall 7 True]"
proof -
  have k: "isControlledState (fst controlled_cell)" and u: "\<not> isControlledState (fst uncontrolled_cell)"
    and o: "onChange (options (fst uncontrolled_cell)) = Some 7" and g: "getValue (fst uncontrolled_cell) \<noteq> True"
    and gk: "getValue (fst controlled_cell) = False"
    by (simp_all add: getValue_def isControlledState_def uncontrolled_cell_facts controlled_cell_facts)
  have n: "notification True False (fst controlled_cell) = [SubscriberCall 9 (Some True)]"
    by (simp add: notification_def controlled_cell_facts change_event_def CustomEvent_def)
  from updateControlledValue_spares_onChange [of never_raises True "fst controlled_cell" "snd controlled_cell"] k
  have a: "\<exists>s'. updateControlledValue never_raises True controlled_cell = Returned () s'
          \<and> getValue (fst s') = True \<and> calls (snd s') = [SubscriberCall 9 (Some True)]"
    and b: "calls (snd (after (set_value never_raises True controlled_cell))) = []"
    by (simp_all add: n gk controlled_cell_facts)
  from updateControlledValue_spares_onChange [of never_raises True "fst uncontrolled_cell" "snd uncontrolled_cell"] u o g
  have c: "updateControlledValue never_raises True uncontrolled_cell = Returned () uncontrolled_cell"
    and d: "onChange_calls (calls (snd (after (setValue never_raises True uncontrolled_cell)))) = [OnChangeCall 7 True]"
    by (simp_all add: uncontrolled_cell_facts onChange_calls_def)
  from k a b u c o g d show ?thesis by blast
qed

text \<open>
  Claim C10 as stated fails: the uncontrolled set path is not the only one that calls
  \<open>onChange\<close>. \<open>setValue(true)\<close> on the controlled cell calls the callback with \<open>true\<close>.
\<close>

theorem setValue_invokes_onChange_on_controlled_cell:
  "isControlledState (fst controlled_cell)
   \<and> onChange_calls (calls (snd controlled_cell)) = []
   \<and> onChange_calls (calls (snd (after (setValue never_raises True controlled_cell)))) = [OnChangeCall 7 True]"
  by (simp add: isControlledState_def onChange_calls_def setValue_def Let_def call_fn_def never_raises_def
        dispatchEvent_def CustomEvent_def cell_eval)

section \<open>Properties of the Widget Lifecycle Base\<close>

subsection \<open>What the loop of \<open>destroy\<close> removes\<close>

lemma handlers_native_remove:
  "handlers (native_removeEventListener n t l d) n' t'
     = (if n' = n \<and> t' = t then filter (\<lambda>x. x \<noteq> l) (handlers d n' t') else handlers d n' t')"
  by (auto simp: native_removeEventListener_def set_delete_def removeAll_filter_not_eq
           intro: filter_cong)

lemma handlers_fold_remove:
  "handlers (fold (\<lambda>l d'. native_removeEventListener n t l d') ls d) n' t'
     = (if n' = n \<and> t' = t then filter (\<lambda>x. x \<notin> set ls) (handlers d n' t') else handlers d n' t')"
proof (induction ls arbitrary: d)
  case Nil
  show ?case by simp
next
  case (Cons l ls)
  show ?case
    by (auto simp: Cons.IH handlers_native_remove intro: filter_cong)
qed

lemma handlers_untrack_all:
  "handlers (untrack_all n entries d) n' t'
     = (if n' = n
        then filter (\<lambda>x. \<forall>ls. (t', ls) \<in> set entries \<longrightarrow> x \<notin> set ls) (handlers d n' t')
        else handlers d n' t')"
proof (induction entries arbitrary: d)
  case Nil
  show ?case by (simp add: untrack_all_def)
next
  case (Cons en entries)
  have "untrack_all n (en # entries) d
          = untrack_all n entries (fold (\<lambda>listener d'. native_removeEventListener n (fst en) listener d') (snd en) d)"
    by (simp add: untrack_all_def)
  then show ?case
    by (cases en) (auto simp: Cons.IH handlers_fold_remove intro: filter_cong)
qed

lemma destroy_first:
  "\<not> destroyed c \<Longrightarrow>
     destroy cleanup ((c, d), e)
       = (((case cleanup of Some hook \<Rightarrow> hook | None \<Rightarrow> (\<lambda>c. c))
             (c\<lparr>destroyed := True, component_listeners := []\<rparr>),
           untrack_all (eventTarget c) (component_listeners c) d), e)"
  by (simp add: destroy_def Let_def split: option.splits)

lemma listening_probe_facts:
  "fst (fst listening_probe)
     = probe\<lparr>component_listeners := [(''click'', [Fn 7]), (''valueChange'', [Fn 8])]\<rparr>"
  "handlers (snd (fst listening_probe)) 2 ''click'' = [Fn 7]"
  "handlers (snd (fst listening_probe)) 3 ''valueChange'' = [Fn 8]"
  "snd listening_probe = env0"
  by (simp_all add: listening_probe_def addCustomEventListener_def Component_addEventListener_def
        probe_def dom0_def Let_def map_set_def set_add_def native_addEventListener_def)

subsection \<open>Teardown\<close>

text \<open>
  Claim C5, as the code has it. \<open>destroy()\<close> on a destroyed widget changes nothing. A first
  \<open>destroy()\<close> sets the destroyed flag first; then it takes every listener of the tracked
  registry off the component's own event target, where the listeners of that target which
  are not tracked for the event stay in their order, and empties the registry; and it
  runs the cleanup hook last, if there is one: the hook receives the object with the flag
  set and the registry empty. When the hook leaves the flag alone, a second \<open>destroy()\<close>
  changes nothing.
\<close>

theorem destroy_sets_flag_first:
  "(isDestroyed c \<longrightarrow> destroy cleanup ((c, d), e) = ((c, d), e))
   \<and> (\<not> isDestroyed c \<longrightarrow>
        (\<exists>d'. destroy cleanup ((c, d), e)
           = (((case cleanup of Some hook \<Rightarrow> hook | None \<Rightarrow> (\<lambda>c. c))
                 (c\<lparr>destroyed := True, component_listeners := []\<rparr>), d'), e)
          \<and> (\<forall>event. handlers d' (eventTarget c) event
                = filter (\<lambda>l. \<forall>ls. (event, ls) \<in> set (component_listeners c) \<longrightarrow> l \<notin> set ls)
                         (handlers d (eventTarget c) event))))
   \<and> (\<not> isDestroyed c \<and> (\<forall>hook c'. cleanup = Some hook \<and> isDestroyed c' \<longrightarrow> isDestroyed (hook c')) \<longrightarrow>
        isDestroyed (fst (fst (destroy cleanup ((c, d), e))))
        \<and> destroy cleanup (destroy cleanup ((c, d), e)) = destroy cleanup ((c, d), e))"
proof -
  have one: "isDestroyed c \<longrightarrow> destroy cleanup ((c, d), e) = ((c, d), e)"
    by (simp add: destroy_def isDestroyed_def)
  have two: "\<not> isDestroyed c \<longrightarrow>
        (\<exists>d'. destroy cleanup ((c, d), e)
           = (((case cleanup of Some hook \<Rightarrow> hook | None \<Rightarrow> (\<lambda>c. c))
                 (c\<lparr>destroyed := True, component_listeners := []\<rparr>), d'), e)
          \<and> (\<forall>event. handlers d' (eventTarget c) event
                = filter (\<lambda>l. \<forall>ls. (event, ls) \<in> set (component_listeners c) \<longrightarrow> l \<notin> set ls)
                         (handlers d (eventTarget c) event)))"
  proof
    assume "\<not> isDestroyed c"
    then have n: "\<not> destroyed c" by (simp add: isDestroyed_def)
    have "\<forall>event. handlers (untrack_all (eventTarget c) (component_listeners c) d) (eventTarget c) event
            = filter (\<lambda>l. \<forall>ls. (event, ls) \<in> set (component_listeners c) \<longrightarrow> l \<notin> set ls)
                     (handlers d (eventTarget c) event)"
      by (simp add: handlers_untrack_all)
    with destroy_first [OF n, of cleanup d e]
    show "\<exists>d'. destroy cleanup ((c, d), e)
           = (((case cleanup of Some hook \<Rightarrow> hook | None \<Rightarrow> (\<lambda>c. c))
                 (c\<lparr>destroyed := True, component_listeners := []\<rparr>), d'), e)
          \<and> (\<forall>event. handlers d' (eventTarget c) event
                = filter (\<lambda>l. \<forall>ls. (event, ls) \<in> set (component_listeners c) \<longrightarrow> l \<notin> set ls)
                         (handlers d (eventTarget c) event))"
      by blast
  qed
  have three: "\<not> isDestroyed c \<and> (\<forall>hook c'. cleanup = Some hook \<and> isDestroyed c' \<longrightarrow> isDestroyed (hook c')) \<longrightarrow>
        isDestroyed (fst (fst (destroy cleanup ((c, d), e))))
        \<and> destroy cleanup (destroy cleanup ((c, d), e)) = destroy cleanup ((c, d), e)"
    by (auto simp: destroy_def isDestroyed_def Let_def split: option.splits)
  from one two three show ?thesis by blast
qed

text \<open>
  On \<open>listening_probe\<close>: the listener 8 of \<open>valueChange\<close> is gone from the component's own
  event target, the registry is empty, the hook has recorded \<open>true\<close>, and a second
  \<open>destroy()\<close> changes nothing.
\<close>

theorem destroy_sets_flag_first_witness:
  "handlers (snd (fst listening_probe)) 3 ''valueChange'' = [Fn 8]
   \<and> handlers (snd (fst (destroy (Some recording_cleanup) listening_probe))) 3 ''valueChange'' = []
   \<and> fst (fst (destroy (Some recording_cleanup) listening_probe))
        = probe\<lparr>destroyed := True, component_listeners := [], Component.more := True\<rparr>
   \<and> destroy (Some recording_cleanup) (destroy (Some recording_cleanup) listening_probe)
        = destroy (Some recording_cleanup) listening_probe"
proof -
  define c where "c = fst (fst listening_probe)"
  define d where "d = snd (fst listening_probe)"
  have lp: "listening_probe = ((c, d), env0)"
    using listening_probe_facts(4) unfolding c_def d_def by (metis prod.collapse)
  have c: "c = probe\<lparr>component_listeners := [(''click'', [Fn 7]), (''valueChange'', [Fn 8])]\<rparr>"
    unfolding c_def by (rule listening_probe_facts(1))
  have dh: "handlers d 3 ''valueChange'' = [Fn 8]"
    unfolding d_def by (rule listening_probe_facts(3))
  have a: "\<not> isDestroyed c" by (simp add: isDestroyed_def c probe_def)
  have b: "\<forall>hook c'. Some recording_cleanup = Some hook \<and> isDestroyed c' \<longrightarrow> isDestroyed (hook c')"
    by (auto simp: recording_cleanup_def isDestroyed_def)
  note t = destroy_sets_flag_first [of c "Some recording_cleanup" d "env0 :: unit env"]
  from t a have "\<exists>d'. destroy (Some recording_cleanup) ((c, d), env0 :: unit env)
           = (((case Some recording_cleanup of Some hook \<Rightarrow> hook | None \<Rightarrow> (\<lambda>c. c))
                 (c\<lparr>destroyed := True, component_listeners := []\<rparr>), d'), env0)
          \<and> (\<forall>event. handlers d' (eventTarget c) event
                = filter (\<lambda>l. \<forall>ls. (event, ls) \<in> set (component_listeners c) \<longrightarrow> l \<notin> set ls)
                         (handlers d (eventTarget c) event))"
    by blast
  then obtain d' where
    eq: "destroy (Some recording_cleanup) ((c, d), env0 :: unit env)
           = ((recording_cleanup (c\<lparr>destroyed := True, component_listeners := []\<rparr>), d'), env0)"
    and h: "\<forall>event. handlers d' (eventTarget c) event
                = filter (\<lambda>l. \<forall>ls. (event, ls) \<in> set (component_listeners c) \<longrightarrow> l \<notin> set ls)
                         (handlers d (eventTarget c) event)"
    by fastforce
  from t a b have idem: "destroy (Some recording_cleanup) (destroy (Some recording_cleanup) ((c, d), env0 :: unit env))
        = destroy (Some recording_cleanup) ((c, d), env0)"
    by blast
  have et: "eventTarget c = 3" by (simp add: c probe_def)
  from h have "handlers d' (eventTarget c) ''valueChange''
                = filter (\<lambda>l. \<forall>ls. (''valueChange'', ls) \<in> set (component_listeners c) \<longrightarrow> l \<notin> set ls)
                         (handlers d (eventTarget c) ''valueChange'')"
    by blast
  then have gone: "handlers d' 3 ''valueChange'' = []"
    by (simp add: et dh) (simp add: c)
  have obj: "recording_cleanup (c\<lparr>destroyed := True, component_listeners := []\<rparr>)
               = probe\<lparr>destroyed := True, component_listeners := [], Component.more := True\<rparr>"
    by (simp add: c recording_cleanup_def isDestroyed_def probe_def)
  have r1: "handlers (snd (fst listening_probe)) 3 ''valueChange'' = [Fn 8]"
    by (rule listening_probe_facts(3))
  have r2: "handlers (snd (fst (destroy (Some recording_cleanup) listening_probe))) 3 ''valueChange'' = []"
    unfolding lp eq using gone by simp
  have r3: "fst (fst (destroy (Some recording_cleanup) listening_probe))
        = probe\<lparr>destroyed := True, component_listeners := [], Component.more := True\<rparr>"
    unfolding lp eq using obj by simp
  have r4: "destroy (Some recording_cleanup) (destroy (Some recording_cleanup) listening_probe)
        = destroy (Some recording_cleanup) listening_probe"
    unfolding lp by (rule idem)
  from r1 r2 r3 r4 show ?thesis by blast
qed

text \<open>
  Claim C5 as stated fails in the order of the steps and in its first step. The cleanup
  hook, which records \<open>isDestroyed()\<close>, records \<open>true\<close>; in the order of the claim, with
  the flag set last, it would record \<open>false\<close>. And the click listener 7, registered on the
  root through the tracked helper, is still registered on the root after \<open>destroy()\<close>.
\<close>

theorem cleanup_hook_sees_destroyed_flag:
  "Component.more (fst (fst (destroy (Some recording_cleanup) listening_probe))) = True
   \<and> Component.more (fst (fst (destroy_in_specified_order (Some recording_cleanup) listening_probe))) = False
   \<and> handlers (snd (fst (destroy (Some recording_cleanup) listening_probe))) 2 ''click'' = [Fn 7]"
  by (simp add: listening_probe_def addCustomEventListener_def Component_addEventListener_def
        probe_def dom0_def env0_def Let_def map_set_def set_add_def native_addEventListener_def
        destroy_def destroy_in_specified_order_def untrack_all_def recording_cleanup_def isDestroyed_def
        native_removeEventListener_def set_delete_def)

text \<open>
  Claim C1. A widget on node 2 whose \<open>init\<close> registers the click listener 7 on its root
  through the tracked helper is constructed and destroyed at once. The widget is then
  destroyed, but the listener is still registered on the root, and a click on the root
  invokes it: \<open>destroy\<close> has asked the component's own event target, not the root, to
  remove it.
\<close>

theorem tracked_listener_survives_destroy:
  "(case new_Component True (tracking_init [(2, ''click'', Fn 7)]) 2 () () (dom0, env0 :: unit env) of
      Returned this s \<Rightarrow>
        (isDestroyed (fst (fst (destroy None ((this, fst s), snd s)))),
         handlers (snd (fst (destroy None ((this, fst s), snd s)))) 2 ''click'',
         calls (snd (native_dispatchEvent never_raises (click ()) 2 (destroy None ((this, fst s), snd s)))))
    | Threw x s \<Rightarrow> (False, [], []))
   = (True, [Fn 7], [ListenerCall 7 (click ())])"
  by (simp add: new_Component_def tracking_init_def Component_addEventListener_def new_native_EventTarget_def
        dom0_def env0_def Let_def map_set_def set_add_def native_addEventListener_def
        destroy_def untrack_all_def isDestroyed_def native_removeEventListener_def set_delete_def
        native_dispatchEvent_def click_def CustomEvent_def call_fn_def never_raises_def)

section \<open>Properties of the Switch\<close>

text \<open>
  The constructor of the base runs \<open>init\<close> while \<open>this.elements\<close> and
  \<open>this.checkedState\<close> are still \<open>undefined\<close>: \<open>findElements\<close> throws, in every document
  and for all options, and \<open>new Switch\<close> never returns an object.
\<close>

lemma Switch_init_blank:
  "elements (fst (fst s)) = None \<Longrightarrow>
     \<exists>s'. Switch_init s = Threw (TypeError ''Cannot set properties of undefined (setting 'thumb')'') s'"
  by (simp add: Switch_init_def findElements_def and_then_def Let_def split: prod.splits)

lemma new_Switch_throws:
  "\<exists>s'. new_Switch True el opts s
          = Threw (TypeError ''Cannot set properties of undefined (setting 'thumb')'') s'"
proof -
  let ?this = "\<lparr>element = el, component_options = opts, eventTarget = nodes (fst s),
                 component_listeners = [], destroyed = False, \<dots> = blank_Switch\<rparr>"
  let ?s0 = "((?this, (fst s)\<lparr>nodes := Suc (nodes (fst s))\<rparr>), snd s)"
  have "elements (fst (fst ?s0)) = None" by (simp add: blank_Switch_def)
  from Switch_init_blank [OF this]
  obtain s' where "Switch_init ?s0 = Threw (TypeError ''Cannot set properties of undefined (setting 'thumb')'') s'"
    by blast
  then show ?thesis
    by (simp add: new_Switch_def new_Component_def new_native_EventTarget_def Let_def)
qed

lemma new_Switch_never_returns: "\<not> returned (new_Switch canUseDOM el opts s)"
proof (cases canUseDOM)
  case True
  with new_Switch_throws [of el opts s] show ?thesis by auto
next
  case False
  then show ?thesis by (simp add: new_Switch_def new_Component_def)
qed

text \<open>
  Claim C4. \<open>new Switch(root, { checked: false, onCheckedChange: cb })\<close>, with \<open>cb\<close> the
  function 7 and the root node 2 of a document, does not return a Switch: it throws the
  \<open>TypeError\<close> of \<open>findElements\<close>, and \<open>cb\<close> has not been called. No click listener has
  been registered by then, so no click reaches \<open>handleClick\<close>.
\<close>

theorem controlled_Switch_is_never_constructed:
  "(case new_Switch True 2 controlled_options (dom0, env0) of
      Returned this s \<Rightarrow> None
    | Threw x s \<Rightarrow> Some (x, calls (snd s), handlers (fst s) 2 ''click''))
   = Some (TypeError ''Cannot set properties of undefined (setting 'thumb')'', [], [])"
  by (simp add: new_Switch_def new_Component_def new_native_EventTarget_def Let_def blank_Switch_def
        Switch_init_def findElements_def and_then_def createElement_def dom0_def env0_def)

text \<open>
  What \<open>handleClick\<close> would do on a Switch object holding a controlled cell that reports
  unchecked: it calls \<open>setValue\<close>, which is not guarded, so the reported state becomes
  \<open>true\<close> and the callback is called with \<open>true\<close>, once.
\<close>

lemma handleClick_on_controlled_cell:
  assumes "checkedState sw = Some cs" and "isControlledState cs" and "getValue cs = False"
    and "onChange (options cs) = Some cb" and "this_disabled sw \<noteq> Some True"
    and "\<not> raises (calls e @ [OnChangeCall cb True])"
  shows "\<exists>s'. handleClick raises ev ((sw, d), e) = Returned () s'
     \<and> getChecked (fst (fst s')) = Inr True
     \<and> onChange_calls (calls (snd s')) = onChange_calls (calls e) @ [OnChangeCall cb True]"
proof -
  from assms have a: "getValue cs \<noteq> (\<not> getValue cs)" and b: "callback_returns raises (cs, e) (\<not> getValue cs)"
    by (simp_all add: callback_returns_def)
  from setValue_changes' [OF a b]
  obtain r where r: "setValue raises (\<not> getValue cs) (cs, e) = Returned () r"
    and c: "calls (snd r) = calls e @ onChange_call cs (\<not> getValue cs) @ notification (\<not> getValue cs) (getValue cs) cs"
    and g: "getValue (fst r) = (\<not> getValue cs)"
    by blast
  from c assms have "onChange_calls (calls (snd r)) = onChange_calls (calls e) @ [OnChangeCall cb True]"
    by (simp add: onChange_calls_append onChange_calls_notification onChange_call_def onChange_calls_OnChange)
  with r g assms show ?thesis
    by (simp add: handleClick_def Let_def getChecked_def)
qed

end
